theory Spec2Isabelle
  imports Complex_Main "HOL-Library.Stream" "HOL-Library.Multiset" "HOL-Library.Sublist"
begin

section \<open>Python values and exceptions\<close>

text \<open>
  A cell of a pandas table, or the result of \<^verbatim>\<open>row.get\<close>, is one of: Python's
  \<^verbatim>\<open>None\<close>, the float NaN that pandas uses for an absent cell, a string, or a
  number. A float is written as a real, which stands for the binary64 value nearest
  to it: a float of a table as the decimal Python prints for it, and a constant of the
  code (0.8, 0.6, 0.4, ...) as the decimal fraction it is written as, so that comparing
  the two reals is comparing the two floats. Sums and products are rounded as the
  hardware rounds them (see below). Strings are lists of characters with code points
  below 256; the case mapping and the digit and white-space classes below are Python's
  on these code points.
\<close>

datatype pyval = PNone | NaN | Str string | Num real

datatype error = KeyError | ValueError string | TypeError | IndexError | AttributeError | NotFittedError

text \<open>\<^verbatim>\<open>pd.isna(v)\<close> on a scalar.\<close>

definition isna :: "pyval \<Rightarrow> bool" where
  "isna v = (v = PNone \<or> v = NaN)"

text \<open>Python's truth value of an object, as \<^verbatim>\<open>and\<close>, \<^verbatim>\<open>or\<close> and \<^verbatim>\<open>if\<close> read it:
  NaN is a non-zero float and therefore true.\<close>

fun truthy :: "pyval \<Rightarrow> bool" where
  "truthy PNone = False"
| "truthy NaN = True"
| "truthy (Str s) = (s \<noteq> [])"
| "truthy (Num x) = (x \<noteq> 0)"

text \<open>\<^verbatim>\<open>v >= c\<close> for a float constant \<^verbatim>\<open>c\<close>: every comparison with NaN is false,
  and a string or \<^verbatim>\<open>None\<close> cannot be compared with a number.\<close>

fun py_ge :: "pyval \<Rightarrow> real \<Rightarrow> error + bool" where
  "py_ge (Num x) c = Inr (c \<le> x)"
| "py_ge NaN c = Inr False"
| "py_ge (Str s) c = Inl TypeError"
| "py_ge PNone c = Inl TypeError"

section \<open>Float arithmetic\<close>

text \<open>\<^verbatim>\<open>round(x)\<close> on a float: to the nearest integer, a tie to the even one.\<close>

definition py_round :: "real \<Rightarrow> int" where
  "py_round x =
     (let f = \<lfloor>x\<rfloor>; d = x - of_int f
      in if d < 1 / 2 then f else if 1 / 2 < d then f + 1 else if even f then f else f + 1)"

text \<open>The binary exponent of a positive number (the \<open>e\<close> with \<open>2 powi e \<le> x < 2 powi (e + 1)\<close>),
  found by halving or doubling; the exponents of binary64 lie within the steps allowed.\<close>

fun binary_exponent :: "nat \<Rightarrow> real \<Rightarrow> int" where
  "binary_exponent 0 x = 0"
| "binary_exponent (Suc fuel) x =
     (if 2 \<le> x then binary_exponent fuel (x / 2) + 1
      else if x < 1 then binary_exponent fuel (x * 2) - 1
      else 0)"

text \<open>
  The binary64 value nearest to a real, a tie going to the even significand: 53
  significant bits, and steps of \<open>2 powi (- 1074)\<close> in the subnormal range. Overflow to infinity
  is left out: the sums and products of this program stay far below the largest float.
\<close>

definition round_to_double :: "real \<Rightarrow> real" where
  "round_to_double x =
     (if x = 0 then 0
      else (let e = binary_exponent 2200 \<bar>x\<bar>;
                q = 2 powi (max (e - 52) (- 1074))
            in q * of_int (py_round (x / q))))"

text \<open>\<^verbatim>\<open>x + y\<close> and \<^verbatim>\<open>x * y\<close> on floats: the exact result of the two floats, rounded.\<close>

definition fadd :: "real \<Rightarrow> real \<Rightarrow> real" where
  "fadd x y = round_to_double (round_to_double x + round_to_double y)"

definition fmul :: "real \<Rightarrow> real \<Rightarrow> real" where
  "fmul x y = round_to_double (round_to_double x * round_to_double y)"

section \<open>Strings\<close>

text \<open>The upper-case letters below code point 256 and their lower-case forms: A to Z,
  and the accented letters \<^verbatim>\<open>0xC0\<close> to \<^verbatim>\<open>0xDE\<close> without the sign \<^verbatim>\<open>0xD7\<close>.\<close>

definition upper_letters :: string where
  "upper_letters =
     ''ABCDEFGHIJKLMNOPQRSTUVWXYZ'' @
     [CHR 0xC0, CHR 0xC1, CHR 0xC2, CHR 0xC3, CHR 0xC4, CHR 0xC5, CHR 0xC6, CHR 0xC7,
      CHR 0xC8, CHR 0xC9, CHR 0xCA, CHR 0xCB, CHR 0xCC, CHR 0xCD, CHR 0xCE, CHR 0xCF,
      CHR 0xD0, CHR 0xD1, CHR 0xD2, CHR 0xD3, CHR 0xD4, CHR 0xD5, CHR 0xD6,
      CHR 0xD8, CHR 0xD9, CHR 0xDA, CHR 0xDB, CHR 0xDC, CHR 0xDD, CHR 0xDE]"

definition lower_letters :: string where
  "lower_letters =
     ''abcdefghijklmnopqrstuvwxyz'' @
     [CHR 0xE0, CHR 0xE1, CHR 0xE2, CHR 0xE3, CHR 0xE4, CHR 0xE5, CHR 0xE6, CHR 0xE7,
      CHR 0xE8, CHR 0xE9, CHR 0xEA, CHR 0xEB, CHR 0xEC, CHR 0xED, CHR 0xEE, CHR 0xEF,
      CHR 0xF0, CHR 0xF1, CHR 0xF2, CHR 0xF3, CHR 0xF4, CHR 0xF5, CHR 0xF6,
      CHR 0xF8, CHR 0xF9, CHR 0xFA, CHR 0xFB, CHR 0xFC, CHR 0xFD, CHR 0xFE]"

definition lower_char :: "char \<Rightarrow> char" where
  "lower_char c =
     (case map_of (zip upper_letters lower_letters) c of
        Some d \<Rightarrow> d
      | None \<Rightarrow> c)"

text \<open>\<^verbatim>\<open>s.lower()\<close>\<close>

definition lower :: "string \<Rightarrow> string" where
  "lower s = map lower_char s"

fun starts_with :: "string \<Rightarrow> string \<Rightarrow> bool" where
  "starts_with [] s = True"
| "starts_with (c # cs) [] = False"
| "starts_with (c # cs) (d # ds) = (c = d \<and> starts_with cs ds)"

text \<open>\<^verbatim>\<open>needle in hay\<close> for two strings: \<^verbatim>\<open>needle\<close> occurs as a contiguous substring.\<close>

fun contains :: "string \<Rightarrow> string \<Rightarrow> bool" where
  "contains needle [] = (needle = [])"
| "contains needle (c # cs) = (starts_with needle (c # cs) \<or> contains needle cs)"

text \<open>\<^verbatim>\<open>any(k in s for k in keys)\<close>, also the loop that returns at the first hit.\<close>

definition contains_any :: "string list \<Rightarrow> string \<Rightarrow> bool" where
  "contains_any keys s = list_ex (\<lambda>k. contains k s) keys"

definition is_digit :: "char \<Rightarrow> bool" where
  "is_digit c = (c \<in> set ''0123456789'')"

text \<open>\<^verbatim>\<open>s.split(sep)\<close> for a one-character separator: the maximal pieces between
  the occurrences of \<^verbatim>\<open>sep\<close>; always at least one piece.\<close>

fun split_on :: "char \<Rightarrow> string \<Rightarrow> string list" where
  "split_on sep [] = [[]]"
| "split_on sep (c # cs) =
     (if c = sep then [] # split_on sep cs
      else (case split_on sep cs of
              p # ps \<Rightarrow> (c # p) # ps
            | [] \<Rightarrow> [[c]]))"

text \<open>\<^verbatim>\<open>xs[i]\<close> for a non-negative index.\<close>

definition index :: "'a list \<Rightarrow> nat \<Rightarrow> error + 'a" where
  "index xs i = (if i < length xs then Inr (xs ! i) else Inl IndexError)"

section \<open>Regular expressions\<close>

text \<open>
  The fragment of Python's \<^verbatim>\<open>re\<close> syntax that the e-mail pattern
  \<^verbatim>\<open>^[^@]+@[^@]+\.[^@]+$\<close> uses: a literal character, a negated one-character
  class (which also matches a newline), concatenation and \<^verbatim>\<open>+\<close>. Matching is by
  derivatives.
\<close>

datatype rexp =
    Nothing
  | Eps
  | Chr char
  | NotChr char
  | Alt rexp rexp
  | Seq rexp rexp
  | Star rexp

definition Plus :: "rexp \<Rightarrow> rexp" where
  "Plus r = Seq r (Star r)"

fun nullable :: "rexp \<Rightarrow> bool" where
  "nullable Nothing = False"
| "nullable Eps = True"
| "nullable (Chr c) = False"
| "nullable (NotChr c) = False"
| "nullable (Alt r s) = (nullable r \<or> nullable s)"
| "nullable (Seq r s) = (nullable r \<and> nullable s)"
| "nullable (Star r) = True"

fun deriv :: "char \<Rightarrow> rexp \<Rightarrow> rexp" where
  "deriv a Nothing = Nothing"
| "deriv a Eps = Nothing"
| "deriv a (Chr c) = (if a = c then Eps else Nothing)"
| "deriv a (NotChr c) = (if a = c then Nothing else Eps)"
| "deriv a (Alt r s) = Alt (deriv a r) (deriv a s)"
| "deriv a (Seq r s) =
     (if nullable r then Alt (Seq (deriv a r) s) (deriv a s) else Seq (deriv a r) s)"
| "deriv a (Star r) = Seq (deriv a r) (Star r)"

text \<open>The whole string is in the language of the expression.\<close>

fun fullmatch :: "rexp \<Rightarrow> string \<Rightarrow> bool" where
  "fullmatch r [] = nullable r"
| "fullmatch r (c # cs) = fullmatch (deriv c r) cs"

text \<open>\<^verbatim>\<open>re.match('^' + r + '$', s)\<close>: the match starts at the first character, and
  \<^verbatim>\<open>$\<close> stands at the end of the string or just before a newline that ends it.\<close>

definition re_match_anchored :: "rexp \<Rightarrow> string \<Rightarrow> bool" where
  "re_match_anchored r s =
     (fullmatch r s \<or> (s \<noteq> [] \<and> last s = CHR 0x0A \<and> fullmatch r (butlast s)))"

definition email_pattern :: rexp where
  "email_pattern =
     Seq (Plus (NotChr CHR ''@''))
       (Seq (Chr CHR ''@'')
         (Seq (Plus (NotChr CHR ''@''))
           (Seq (Chr CHR ''.'') (Plus (NotChr CHR ''@'')))))"

section \<open>Feature extraction (\<^verbatim>\<open>LeadProcessor\<close>)\<close>

definition decision_maker_titles :: "string list" where
  "decision_maker_titles = [''ceo'', ''cto'', ''vp'', ''director'', ''founder'', ''president'']"

definition tech_industries :: "string list" where
  "tech_industries = [''software'', ''technology'', ''saas'', ''tech'']"

definition personal_domains :: "string list" where
  "personal_domains = [''gmail.com'', ''yahoo.com'', ''hotmail.com'', ''outlook.com'']"

text \<open>\<^verbatim>\<open>_score_email\<close>. A number is neither missing nor a string: \<^verbatim>\<open>re.match\<close>
  raises \<^verbatim>\<open>TypeError\<close> on it.\<close>

fun score_email :: "pyval \<Rightarrow> error + real" where
  "score_email PNone = Inr 0.0"
| "score_email NaN = Inr 0.0"
| "score_email (Num x) = Inl TypeError"
| "score_email (Str email) =
     (if email = ''N/A'' then Inr 0.0
      else if \<not> re_match_anchored email_pattern email then Inr 0.2
      else (case index (split_on CHR ''@'' email) 1 of
              Inl e \<Rightarrow> Inl e
            | Inr d \<Rightarrow> Inr (if lower d \<in> set personal_domains then 0.6 else 1.0)))"

text \<open>\<^verbatim>\<open>_score_phone\<close>: \<^verbatim>\<open>re.sub(r'[^\d]', '', phone)\<close> keeps the digits.\<close>

fun score_phone :: "pyval \<Rightarrow> error + real" where
  "score_phone PNone = Inr 0.0"
| "score_phone NaN = Inr 0.0"
| "score_phone (Num x) = Inl TypeError"
| "score_phone (Str phone) =
     (if phone = ''N/A'' then Inr 0.0
      else (let digits = filter is_digit phone
            in if length digits \<in> set [10, 11] then Inr 1.0 else Inr 0.3))"

text \<open>\<^verbatim>\<open>_score_title\<close>: a float has no \<^verbatim>\<open>lower\<close> method.\<close>

fun score_title :: "pyval \<Rightarrow> error + real" where
  "score_title PNone = Inr 0.0"
| "score_title NaN = Inr 0.0"
| "score_title (Num x) = Inl AttributeError"
| "score_title (Str t) =
     (if t = ''N/A'' then Inr 0.0
      else (let title_lower = lower t
            in if contains_any decision_maker_titles title_lower then Inr 1.0
               else if contains_any [''manager'', ''lead'', ''head''] title_lower then Inr 0.6
               else Inr 0.3))"

text \<open>\<^verbatim>\<open>_score_industry\<close>: only \<^verbatim>\<open>pd.isna\<close> is tested, not the \<^verbatim>\<open>"N/A"\<close> string.\<close>

fun score_industry :: "pyval \<Rightarrow> error + real" where
  "score_industry PNone = Inr 0.5"
| "score_industry NaN = Inr 0.5"
| "score_industry (Num x) = Inl AttributeError"
| "score_industry (Str industry) =
     (let industry_lower = lower industry
      in if contains_any tech_industries industry_lower then Inr 1.0 else Inr 0.7)"

section \<open>Tables\<close>

text \<open>
  A pandas table: its column labels and its rows in order. A row, as \<^verbatim>\<open>iterrows\<close>
  yields it, maps a column label to the cell; \<^verbatim>\<open>row[k]\<close> raises \<^verbatim>\<open>KeyError\<close> on
  an unknown label and \<^verbatim>\<open>row.get(k, d)\<close> returns \<^verbatim>\<open>d\<close> there.
\<close>

type_synonym row = "string \<rightharpoonup> pyval"

record table =
  columns :: "string list"
  rows :: "row list"

definition row_item :: "row \<Rightarrow> string \<Rightarrow> error + pyval" where
  "row_item r k = (case r k of None \<Rightarrow> Inl KeyError | Some v \<Rightarrow> Inr v)"

definition row_get :: "row \<Rightarrow> string \<Rightarrow> pyval \<Rightarrow> pyval" where
  "row_get r k d = (case r k of None \<Rightarrow> d | Some v \<Rightarrow> v)"

text \<open>Running a fallible function over a list: the first exception ends the run.\<close>

fun map_err :: "('a \<Rightarrow> error + 'b) \<Rightarrow> 'a list \<Rightarrow> error + 'b list" where
  "map_err f [] = Inr []"
| "map_err f (x # xs) =
     (case f x of
        Inl e \<Rightarrow> Inl e
      | Inr y \<Rightarrow> (case map_err f xs of Inl e \<Rightarrow> Inl e | Inr ys \<Rightarrow> Inr (y # ys)))"

text \<open>\<^verbatim>\<open>df[name]\<close>: the column as a list of cells.\<close>

definition get_column :: "table \<Rightarrow> string \<Rightarrow> error + pyval list" where
  "get_column df name =
     (if name \<in> set (columns df) then map_err (\<lambda>r. row_item r name) (rows df)
      else Inl KeyError)"

text \<open>\<^verbatim>\<open>df[name].apply(f)\<close>, the results stored as float cells.\<close>

definition apply_column :: "table \<Rightarrow> string \<Rightarrow> (pyval \<Rightarrow> error + real) \<Rightarrow> error + pyval list" where
  "apply_column df name f =
     (case get_column df name of
        Inl e \<Rightarrow> Inl e
      | Inr cells \<Rightarrow> map_err (\<lambda>v. case f v of Inl e \<Rightarrow> Inl e | Inr x \<Rightarrow> Inr (Num x)) cells)"

text \<open>\<^verbatim>\<open>df[name] = vals\<close>: a new column is appended, an existing one overwritten;
  a list of the wrong length is refused.\<close>

definition set_column :: "table \<Rightarrow> string \<Rightarrow> pyval list \<Rightarrow> error + table" where
  "set_column df name vals =
     (if length vals \<noteq> length (rows df)
      then Inl (ValueError ''Length of values does not match length of index'')
      else Inr \<lparr>columns = (if name \<in> set (columns df) then columns df else columns df @ [name]),
                rows = map2 (\<lambda>r v. r(name \<mapsto> v)) (rows df) vals\<rparr>)"

text \<open>\<^verbatim>\<open>_calculate_completeness\<close>: the inner loop over the key fields of one row,
  with its counter, and the outer loop over the rows.\<close>

definition key_fields :: "string list" where
  "key_fields = [''Contact_Email'', ''Contact_Phone'', ''Contact_Name'', ''Website'']"

fun count_filled :: "row \<Rightarrow> string list \<Rightarrow> nat \<Rightarrow> error + nat" where
  "count_filled r [] filled_count = Inr filled_count"
| "count_filled r (field # more_fields) filled_count =
     (case row_item r field of
        Inl e \<Rightarrow> Inl e
      | Inr v \<Rightarrow>
          count_filled r more_fields
            (if \<not> isna v \<and> v \<noteq> Str ''N/A'' then filled_count + 1 else filled_count))"

definition row_completeness :: "row \<Rightarrow> error + pyval" where
  "row_completeness r =
     (case count_filled r key_fields 0 of
        Inl e \<Rightarrow> Inl e
      | Inr n \<Rightarrow> Inr (Num (real n / real (length key_fields))))"

definition calculate_completeness :: "table \<Rightarrow> error + pyval list" where
  "calculate_completeness df = map_err row_completeness (rows df)"

subsection \<open>\<^verbatim>\<open>process_leads\<close> on a store of tables\<close>

text \<open>
  Tables are mutable objects: a store holds them by address (the position in the list),
  \<^verbatim>\<open>df.copy()\<close> allocates a new table, and a column assignment updates the table at an
  address in place. Each step returns the store it leaves behind together with its
  outcome, also when it raises.
\<close>

type_synonym store = "table list"

definition assign_column :: "store \<Rightarrow> nat \<Rightarrow> string \<Rightarrow> error + pyval list \<Rightarrow> (error + unit) \<times> store" where
  "assign_column st a name computed =
     (case computed of
        Inl e \<Rightarrow> (Inl e, st)
      | Inr vals \<Rightarrow>
          (case set_column (st ! a) name vals of
             Inl e \<Rightarrow> (Inl e, st)
           | Inr t \<Rightarrow> (Inr (), st[a := t])))"

definition process_leads :: "store \<Rightarrow> nat \<Rightarrow> (error + nat) \<times> store" where
  "process_leads st df =
     (let df_processed = length st; st0 = st @ [st ! df] in
      case assign_column st0 df_processed ''email_quality''
             (apply_column (st0 ! df) ''Contact_Email'' score_email) of
        (Inl e, st1) \<Rightarrow> (Inl e, st1)
      | (Inr u1, st1) \<Rightarrow>
      (case assign_column st1 df_processed ''phone_quality''
             (apply_column (st1 ! df) ''Contact_Phone'' score_phone) of
        (Inl e, st2) \<Rightarrow> (Inl e, st2)
      | (Inr u2, st2) \<Rightarrow>
      (case assign_column st2 df_processed ''title_value''
             (apply_column (st2 ! df) ''Contact_Title'' score_title) of
        (Inl e, st3) \<Rightarrow> (Inl e, st3)
      | (Inr u3, st3) \<Rightarrow>
      (case assign_column st3 df_processed ''data_completeness''
             (calculate_completeness (st3 ! df)) of
        (Inl e, st4) \<Rightarrow> (Inl e, st4)
      | (Inr u4, st4) \<Rightarrow>
      (case assign_column st4 df_processed ''industry_fit''
             (apply_column (st4 ! df) ''Industry'' score_industry) of
        (Inl e, st5) \<Rightarrow> (Inl e, st5)
      | (Inr u5, st5) \<Rightarrow> (Inr df_processed, st5))))))"

section \<open>Scoring (\<^verbatim>\<open>LeadScorer\<close>)\<close>

definition feature_columns :: "string list" where
  "feature_columns =
     [''email_quality'', ''phone_quality'', ''title_value'', ''data_completeness'', ''industry_fit'']"

text \<open>\<^verbatim>\<open>np.clip(x, lo, hi)\<close>\<close>

definition clip :: "real \<Rightarrow> real \<Rightarrow> real \<Rightarrow> real" where
  "clip x lo hi = min (max x lo) hi"

text \<open>\<^verbatim>\<open>if row[k] >= c: score += w\<close>\<close>

definition add_if_ge :: "row \<Rightarrow> string \<Rightarrow> real \<Rightarrow> real \<Rightarrow> real \<Rightarrow> error + real" where
  "add_if_ge r k c w score =
     (case row_item r k of
        Inl e \<Rightarrow> Inl e
      | Inr v \<Rightarrow> (case py_ge v c of Inl e \<Rightarrow> Inl e | Inr b \<Rightarrow> Inr (if b then fadd score w else score)))"

text \<open>The body of the loop of \<^verbatim>\<open>create_training_labels\<close> up to the noise: \<^verbatim>\<open>and\<close>
  reads \<^verbatim>\<open>title_value\<close> only when the first comparison holds.\<close>

definition heuristic_score :: "row \<Rightarrow> error + real" where
  "heuristic_score r =
     (case row_item r ''email_quality'' of
        Inl e \<Rightarrow> Inl e
      | Inr eq \<Rightarrow>
     (case py_ge eq 0.8 of
        Inl e \<Rightarrow> Inl e
      | Inr good_email \<Rightarrow>
     (case (if good_email
            then (case row_item r ''title_value'' of Inl e \<Rightarrow> Inl e | Inr tv \<Rightarrow> py_ge tv 0.8)
            else Inr False) of
        Inl e \<Rightarrow> Inl e
      | Inr both \<Rightarrow>
     (case add_if_ge r ''data_completeness'' 0.75 0.3 (if both then fadd 0.0 0.4 else 0.0) of
        Inl e \<Rightarrow> Inl e
      | Inr s2 \<Rightarrow>
     (case add_if_ge r ''industry_fit'' 0.9 0.2 s2 of
        Inl e \<Rightarrow> Inl e
      | Inr s3 \<Rightarrow> add_if_ge r ''phone_quality'' 0.8 0.1 s3)))))"

text \<open>The noise is the draw \<^verbatim>\<open>np.random.normal(0, 0.05)\<close> made for this row.\<close>

definition row_label :: "row \<Rightarrow> real \<Rightarrow> error + int" where
  "row_label r noise =
     (case heuristic_score r of
        Inl e \<Rightarrow> Inl e
      | Inr s \<Rightarrow> (let score = clip (fadd s noise) 0 1 in Inr (if 0.6 < score then 1 else 0)))"

text \<open>The random source is the stream of its future draws; each row takes the next one.\<close>

fun label_rows :: "row list \<Rightarrow> real stream \<Rightarrow> error + int list" where
  "label_rows [] draws = Inr []"
| "label_rows (r # rs) draws =
     (case row_label r (shd draws) of
        Inl e \<Rightarrow> Inl e
      | Inr l \<Rightarrow> (case label_rows rs (stl draws) of Inl e \<Rightarrow> Inl e | Inr ls \<Rightarrow> Inr (l # ls)))"

definition create_training_labels :: "table \<Rightarrow> real stream \<Rightarrow> error + int list" where
  "create_training_labels df draws = label_rows (rows df) draws"

text \<open>\<^verbatim>\<open>df[cols].values\<close>: one list of cells per row.\<close>

definition select_values :: "table \<Rightarrow> string list \<Rightarrow> error + pyval list list" where
  "select_values df cols =
     (if set cols \<subseteq> set (columns df) then map_err (\<lambda>r. map_err (row_item r) cols) (rows df)
      else Inl KeyError)"

text \<open>
  The scikit-learn objects the scorer owns are outside this repository. They are a
  parameter: the split (with its fixed \<^verbatim>\<open>test_size\<close> and \<^verbatim>\<open>random_state\<close>), the
  scaler's \<^verbatim>\<open>fit\<close> and \<^verbatim>\<open>transform\<close>, and the classifier's \<^verbatim>\<open>fit\<close>, \<^verbatim>\<open>score\<close> and
  \<^verbatim>\<open>predict_proba\<close>, whose result is the number of class columns and one row of
  probabilities per sample.
\<close>

record ('sc, 'm) sklearn =
  train_test_split ::
    "pyval list list \<Rightarrow> int list \<Rightarrow>
       error + (pyval list list \<times> pyval list list \<times> int list \<times> int list)"
  scaler_fit :: "pyval list list \<Rightarrow> error + 'sc"
  scaler_transform :: "'sc \<Rightarrow> pyval list list \<Rightarrow> error + real list list"
  forest_fit :: "real list list \<Rightarrow> int list \<Rightarrow> error + 'm"
  forest_score :: "'m \<Rightarrow> real list list \<Rightarrow> int list \<Rightarrow> error + real"
  forest_predict_proba :: "'m \<Rightarrow> real list list \<Rightarrow> error + (nat \<times> real list list)"

text \<open>The scorer's fields: the scaler and the classifier are unfitted at first.\<close>

record ('sc, 'm) lead_scorer =
  scaler :: "'sc option"
  model :: "'m option"
  is_trained :: bool

definition new_scorer :: "('sc, 'm) lead_scorer" where
  "new_scorer = \<lparr>scaler = None, model = None, is_trained = False\<rparr>"

text \<open>\<^verbatim>\<open>train\<close>: the outcome and the scorer as the call leaves it, also when it raises.\<close>

definition train ::
  "('sc, 'm) sklearn \<Rightarrow> ('sc, 'm) lead_scorer \<Rightarrow> table \<Rightarrow> real stream \<Rightarrow>
     (error + (string \<times> real) list) \<times> ('sc, 'm) lead_scorer" where
  "train lib self df draws =
     (case select_values df feature_columns of
        Inl e \<Rightarrow> (Inl e, self)
      | Inr X \<Rightarrow>
     (case create_training_labels df draws of
        Inl e \<Rightarrow> (Inl e, self)
      | Inr y \<Rightarrow>
     (case train_test_split lib X y of
        Inl e \<Rightarrow> (Inl e, self)
      | Inr (X_train, X_test, y_train, y_test) \<Rightarrow>
     (case scaler_fit lib X_train of
        Inl e \<Rightarrow> (Inl e, self)
      | Inr sc \<Rightarrow>
     (let self1 = self\<lparr>scaler := Some sc\<rparr> in
      case scaler_transform lib sc X_train of
        Inl e \<Rightarrow> (Inl e, self1)
      | Inr X_train_scaled \<Rightarrow>
     (case scaler_transform lib sc X_test of
        Inl e \<Rightarrow> (Inl e, self1)
      | Inr X_test_scaled \<Rightarrow>
     (case forest_fit lib X_train_scaled y_train of
        Inl e \<Rightarrow> (Inl e, self1)
      | Inr m \<Rightarrow>
     (let self2 = self1\<lparr>model := Some m\<rparr> in
      case forest_score lib m X_train_scaled y_train of
        Inl e \<Rightarrow> (Inl e, self2)
      | Inr train_accuracy \<Rightarrow>
     (case forest_score lib m X_test_scaled y_test of
        Inl e \<Rightarrow> (Inl e, self2)
      | Inr test_accuracy \<Rightarrow>
          (Inr [(''train_accuracy'', train_accuracy),
                (''test_accuracy'', test_accuracy),
                (''total_samples'', real (length (rows df))),
                (''positive_leads'', real_of_int (sum_list y))],
           self2\<lparr>is_trained := True\<rparr>))))))))))"

text \<open>\<^verbatim>\<open>a[:, j]\<close> on a two-dimensional array with \<^verbatim>\<open>k\<close> columns.\<close>

definition take_column :: "nat \<times> real list list \<Rightarrow> nat \<Rightarrow> error + real list" where
  "take_column a j =
     (case a of (k, data) \<Rightarrow> if j < k then map_err (\<lambda>r. index r j) data else Inl IndexError)"

definition predict_scores ::
  "('sc, 'm) sklearn \<Rightarrow> ('sc, 'm) lead_scorer \<Rightarrow> table \<Rightarrow> error + real list" where
  "predict_scores lib self df =
     (if \<not> is_trained self then Inl (ValueError ''Model must be trained first!'')
      else
     (case select_values df feature_columns of
        Inl e \<Rightarrow> Inl e
      | Inr X \<Rightarrow>
     (case scaler self of
        None \<Rightarrow> Inl NotFittedError
      | Some sc \<Rightarrow>
     (case scaler_transform lib sc X of
        Inl e \<Rightarrow> Inl e
      | Inr X_scaled \<Rightarrow>
     (case model self of
        None \<Rightarrow> Inl NotFittedError
      | Some m \<Rightarrow>
     (case forest_predict_proba lib m X_scaled of
        Inl e \<Rightarrow> Inl e
      | Inr proba \<Rightarrow> take_column proba 1))))))"

text \<open>The body of the loop of \<^verbatim>\<open>categorize_leads\<close>, and the loop.\<close>

definition categorize :: "real \<Rightarrow> string" where
  "categorize score =
     (if 0.8 \<le> score then ''Hot Lead''
      else if 0.6 \<le> score then ''Warm Lead''
      else if 0.4 \<le> score then ''Cold Lead''
      else ''Low Priority'')"

definition categorize_leads :: "real list \<Rightarrow> string list" where
  "categorize_leads scores = map categorize scores"

section \<open>Export formatting (\<^verbatim>\<open>HubSpotFormatter\<close>)\<close>

text \<open>A Python dictionary literal is the list of its items in the order written.\<close>

type_synonym pydict = "(string \<times> pyval) list"

text \<open>\<^verbatim>\<open>round(v * 100)\<close>: NaN cannot be rounded, a repeated string and \<^verbatim>\<open>None\<close>
  are not numbers.\<close>

fun to_percent :: "pyval \<Rightarrow> error + int" where
  "to_percent (Num x) = Inr (py_round (fmul x 100))"
| "to_percent NaN = Inl (ValueError ''cannot convert float NaN to integer'')"
| "to_percent (Str s) = Inl TypeError"
| "to_percent PNone = Inl TypeError"

text \<open>\<^verbatim>\<open>_get_priority_level\<close>\<close>

definition get_priority_level :: "pyval \<Rightarrow> error + string" where
  "get_priority_level score =
     (case py_ge score 0.8 of
        Inl e \<Rightarrow> Inl e
      | Inr hot \<Rightarrow>
          if hot then Inr ''High''
          else (case py_ge score 0.6 of
                  Inl e \<Rightarrow> Inl e
                | Inr warm \<Rightarrow> if warm then Inr ''Medium'' else Inr ''Low''))"

text \<open>\<^verbatim>\<open>_has_contact_info\<close>: \<^verbatim>\<open>v and v != 'N/A'\<close> is true exactly when \<^verbatim>\<open>v\<close> is
  true and differs from the string; \<^verbatim>\<open>row.get\<close> without a default returns \<^verbatim>\<open>None\<close>.\<close>

definition has_contact_info :: "row \<Rightarrow> bool" where
  "has_contact_info r =
     (let has_email = (truthy (row_get r ''Contact_Email'' PNone)
                        \<and> row_get r ''Contact_Email'' PNone \<noteq> Str ''N/A'');
          has_phone = (truthy (row_get r ''Contact_Phone'' PNone)
                        \<and> row_get r ''Contact_Phone'' PNone \<noteq> Str ''N/A'')
      in has_email \<or> has_phone)"

text \<open>\<^verbatim>\<open>str(v)\<close>; the text of a float is a parameter.\<close>

fun py_str :: "(real \<Rightarrow> string) \<Rightarrow> pyval \<Rightarrow> string" where
  "py_str float_repr PNone = ''None''"
| "py_str float_repr NaN = ''nan''"
| "py_str float_repr (Str s) = s"
| "py_str float_repr (Num x) = float_repr x"

definition is_space :: "char \<Rightarrow> bool" where
  "is_space c =
     (c \<in> set [CHR 0x09, CHR 0x0A, CHR 0x0B, CHR 0x0C, CHR 0x0D,
                CHR 0x1C, CHR 0x1D, CHR 0x1E, CHR 0x1F, CHR 0x20, CHR 0x85, CHR 0xA0])"

text \<open>\<^verbatim>\<open>s.strip()\<close>\<close>

definition strip :: "string \<Rightarrow> string" where
  "strip s = rev (dropWhile is_space (rev (dropWhile is_space s)))"

text \<open>\<^verbatim>\<open>s.split(' ', 1)\<close>: cut at the first blank, if there is one.\<close>

definition split_first_blank :: "string \<Rightarrow> string list" where
  "split_first_blank s =
     (case dropWhile (\<lambda>c. c \<noteq> CHR 0x20) s of
        [] \<Rightarrow> [s]
      | b # after \<Rightarrow> [takeWhile (\<lambda>c. c \<noteq> CHR 0x20) s, after])"

text \<open>\<^verbatim>\<open>_parse_name\<close>\<close>

definition parse_name :: "(real \<Rightarrow> string) \<Rightarrow> pyval \<Rightarrow> string \<times> string" where
  "parse_name float_repr full_name =
     (if isna full_name \<or> full_name = Str ''N/A'' then ('''', '''')
      else (let parts = split_first_blank (strip (py_str float_repr full_name));
                first_name = (if parts \<noteq> [] then parts ! 0 else '''');
                last_name = (if 1 < length parts then parts ! 1 else '''')
            in (first_name, last_name)))"

text \<open>\<^verbatim>\<open>v if v != 'N/A' else ''\<close>\<close>

definition unless_na :: "pyval \<Rightarrow> pyval" where
  "unless_na v = (if v \<noteq> Str ''N/A'' then v else Str '''')"

text \<open>\<^verbatim>\<open>_format_contact\<close>; \<^verbatim>\<open>today\<close> is the text of the current date.\<close>

definition format_contact :: "(real \<Rightarrow> string) \<Rightarrow> string \<Rightarrow> row \<Rightarrow> error + pydict" where
  "format_contact float_repr today r =
     (case parse_name float_repr (row_get r ''Contact_Name'' (Str '''')) of
        (first_name, last_name) \<Rightarrow>
     (case to_percent (row_get r ''lead_score'' (Num 0)) of
        Inl e \<Rightarrow> Inl e
      | Inr lead_score_100 \<Rightarrow>
     (case get_priority_level (row_get r ''lead_score'' (Num 0)) of
        Inl e \<Rightarrow> Inl e
      | Inr lead_priority \<Rightarrow>
     (case to_percent (row_get r ''data_completeness'' (Num 0)) of
        Inl e \<Rightarrow> Inl e
      | Inr completeness_100 \<Rightarrow>
          Inr [(''email'', unless_na (row_get r ''Contact_Email'' PNone)),
               (''firstname'', Str first_name),
               (''lastname'', Str last_name),
               (''jobtitle'', unless_na (row_get r ''Contact_Title'' PNone)),
               (''phone'', unless_na (row_get r ''Contact_Phone'' PNone)),
               (''company'', row_get r ''Company'' (Str '''')),
               (''website'', unless_na (row_get r ''Website'' PNone)),
               (''city'', row_get r ''City'' (Str '''')),
               (''state'', row_get r ''State'' (Str '''')),
               (''ai_lead_score'', Num (of_int lead_score_100)),
               (''lead_quality_category'', row_get r ''category'' (Str '''')),
               (''lead_priority'', Str lead_priority),
               (''data_completeness_score'', Num (of_int completeness_100)),
               (''lead_source'', Str ''SaaSSquatch Enhanced''),
               (''last_updated'', Str today)]))))"

text \<open>The loop of \<^verbatim>\<open>format_for_hubspot\<close> over the rows.\<close>

fun collect_contacts :: "(real \<Rightarrow> string) \<Rightarrow> string \<Rightarrow> row list \<Rightarrow> error + pydict list" where
  "collect_contacts float_repr today [] = Inr []"
| "collect_contacts float_repr today (r # rs) =
     (if has_contact_info r
      then (case format_contact float_repr today r of
              Inl e \<Rightarrow> Inl e
            | Inr contact \<Rightarrow>
                (case collect_contacts float_repr today rs of
                   Inl e \<Rightarrow> Inl e
                 | Inr cs \<Rightarrow> Inr (contact # cs)))
      else collect_contacts float_repr today rs)"

record hubspot_export =
  contacts :: "pydict list"
  summary :: pydict

definition format_for_hubspot ::
  "(real \<Rightarrow> string) \<Rightarrow> string \<Rightarrow> table \<Rightarrow> error + hubspot_export" where
  "format_for_hubspot float_repr today df =
     (case collect_contacts float_repr today (rows df) of
        Inl e \<Rightarrow> Inl e
      | Inr hubspot_contacts \<Rightarrow>
          Inr \<lparr>contacts = hubspot_contacts,
               summary =
                 [(''total_contacts'', Num (real (length hubspot_contacts))),
                  (''hot_leads'',
                     Num (real (length (filter (\<lambda>c. map_of c ''lead_priority'' = Some (Str ''High''))
                                         hubspot_contacts)))),
                  (''import_date'', Str today),
                  (''source'', Str ''SaaSSquatch + AI Enhancement'')]\<rparr>)"

subsection \<open>Sales tasks\<close>

text \<open>
  \<^verbatim>\<open>df.nlargest(n, col)\<close> with pandas' default \<^verbatim>\<open>keep='first'\<close>: the column must exist
  and be numeric; the rows are ordered by descending value, rows of equal value staying
  in table order and NaN rows last, and the first \<^verbatim>\<open>n\<close> are kept. pandas decides
  "numeric" on the dtype of the column, which a table of cells does not carry: the
  column is read as a float column when every cell of it is a number or NaN (so also
  when it has no cell, as the column of scores assigned to a table without rows), and
  as an object column, which \<^verbatim>\<open>nlargest\<close> refuses, when a string or \<^verbatim>\<open>None\<close> is in it.
\<close>

fun is_number :: "pyval option \<Rightarrow> bool" where
  "is_number (Some (Num x)) = True"
| "is_number (Some NaN) = True"
| "is_number v = False"

fun number_of :: "pyval option \<Rightarrow> real" where
  "number_of (Some (Num x)) = x"
| "number_of v = 0"

definition nlargest :: "nat \<Rightarrow> string \<Rightarrow> table \<Rightarrow> error + row list" where
  "nlargest n col df =
     (if col \<notin> set (columns df) then Inl KeyError
      else if \<not> list_all (\<lambda>r. is_number (r col)) (rows df) then Inl TypeError
      else Inr (take n
             (sort_key (\<lambda>r. - number_of (r col)) (filter (\<lambda>r. r col \<noteq> Some NaN) (rows df))
              @ filter (\<lambda>r. r col = Some NaN) (rows df))))"

text \<open>Decimal digits of a natural number, and \<^verbatim>\<open>f'{x:.0f}'\<close>.\<close>

fun show_nat :: "nat \<Rightarrow> string" where
  "show_nat n =
     (if n < 10 then [''0123456789'' ! n]
      else show_nat (n div 10) @ [''0123456789'' ! (n mod 10)])"

definition format_0f :: "real \<Rightarrow> string" where
  "format_0f x =
     (if x < 0 then ''-'' @ show_nat (nat (py_round (- x))) else show_nat (nat (py_round x)))"

text \<open>The text of a numeric cell under \<^verbatim>\<open>f'{score*100:.0f}'\<close>.\<close>

fun percent_text :: "pyval \<Rightarrow> string" where
  "percent_text (Num x) = format_0f (fmul x 100)"
| "percent_text v = ''nan''"

text \<open>The body of the loop of \<^verbatim>\<open>create_sales_tasks\<close>: the task for one lead, if any.\<close>

definition lead_task :: "(real \<Rightarrow> string) \<Rightarrow> row \<Rightarrow> error + (string \<times> string) list option" where
  "lead_task float_repr lead =
     (let score = row_get lead ''lead_score'' (Num 0);
          company = row_get lead ''Company'' (Str ''Unknown Company'');
          contact = row_get lead ''Contact_Name'' (Str ''Unknown Contact'')
      in case py_ge score 0.8 of
           Inl e \<Rightarrow> Inl e
         | Inr hot \<Rightarrow>
             if hot
             then Inr (Some
               [(''title'', ''URGENT: Call '' @ py_str float_repr company),
                (''description'', ''Hot lead ('' @ percent_text score @ ''% score). Contact: ''
                                    @ py_str float_repr contact),
                (''priority'', ''High''),
                (''due_date'', ''1 day''),
                (''task_type'', ''call'')])
             else (case py_ge score 0.6 of
                     Inl e \<Rightarrow> Inl e
                   | Inr warm \<Rightarrow>
                       if warm
                       then Inr (Some
                         [(''title'', ''Research and reach out to '' @ py_str float_repr company),
                          (''description'', ''Warm lead ('' @ percent_text score
                                              @ ''% score). Research before calling.''),
                          (''priority'', ''Medium''),
                          (''due_date'', ''3 days''),
                          (''task_type'', ''research'')])
                       else Inr None))"

fun collect_tasks :: "(real \<Rightarrow> string) \<Rightarrow> row list \<Rightarrow> error + (string \<times> string) list list" where
  "collect_tasks float_repr [] = Inr []"
| "collect_tasks float_repr (lead # leads) =
     (case lead_task float_repr lead of
        Inl e \<Rightarrow> Inl e
      | Inr t \<Rightarrow>
          (case collect_tasks float_repr leads of
             Inl e \<Rightarrow> Inl e
           | Inr ts \<Rightarrow> Inr (case t of None \<Rightarrow> ts | Some task \<Rightarrow> task # ts)))"

definition create_sales_tasks ::
  "(real \<Rightarrow> string) \<Rightarrow> table \<Rightarrow> error + (string \<times> string) list list" where
  "create_sales_tasks float_repr df =
     (case nlargest 10 ''lead_score'' df of
        Inl e \<Rightarrow> Inl e
      | Inr top_leads \<Rightarrow> collect_tasks float_repr top_leads)"

section \<open>Notions of the specification\<close>

text \<open>\<open>k\<close> occurs in \<open>s\<close> as a contiguous substring.\<close>

definition is_substring :: "string \<Rightarrow> string \<Rightarrow> bool" where
  "is_substring k s \<longleftrightarrow> (\<exists>p q. s = p @ k @ q)"

text \<open>The language of a regular expression, to justify the matcher.\<close>

definition conc :: "string set \<Rightarrow> string set \<Rightarrow> string set" where
  "conc A B = {xs @ ys | xs ys. xs \<in> A \<and> ys \<in> B}"

inductive_set star :: "string set \<Rightarrow> string set" for A :: "string set" where
  star_nil: "[] \<in> star A"
| star_step: "u \<in> A \<Longrightarrow> v \<in> star A \<Longrightarrow> u @ v \<in> star A"

fun lang :: "rexp \<Rightarrow> string set" where
  "lang Nothing = {}"
| "lang Eps = {[]}"
| "lang (Chr c) = {[c]}"
| "lang (NotChr c) = {[d] | d. d \<noteq> c}"
| "lang (Alt r s) = lang r \<union> lang s"
| "lang (Seq r s) = conc (lang r) (lang s)"
| "lang (Star r) = star (lang r)"

definition left_quot :: "char \<Rightarrow> string set \<Rightarrow> string set" where
  "left_quot a A = {w. a # w \<in> A}"

text \<open>The shape \<^verbatim>\<open>local@domain.tld\<close>: one \<^verbatim>\<open>@\<close>, a non-empty local part before it, and
  after it a domain with a dot that has text on both sides.\<close>

definition email_shape :: "string \<Rightarrow> bool" where
  "email_shape s \<longleftrightarrow>
     (\<exists>l a b. s = l @ ''@'' @ a @ ''.'' @ b \<and> l \<noteq> [] \<and> a \<noteq> [] \<and> b \<noteq> [] \<and>
        CHR ''@'' \<notin> set l \<and> CHR ''@'' \<notin> set a \<and> CHR ''@'' \<notin> set b)"

text \<open>The domain of an address: the text after its first \<^verbatim>\<open>@\<close>.\<close>

definition domain_of :: "string \<Rightarrow> string" where
  "domain_of s = drop 1 (dropWhile (\<lambda>c. c \<noteq> CHR ''@'') s)"

section \<open>Example leads\<close>

text \<open>A scored lead whose e-mail and phone cells are both absent, as \<^verbatim>\<open>pd.read_csv\<close>
  delivers an empty or "N/A" cell.\<close>

definition nan_lead :: row where
  "nan_lead =
     [''Company'' \<mapsto> Str ''DataSync Inc LLC'', ''Contact_Name'' \<mapsto> Str ''Jane Smith'',
      ''Contact_Title'' \<mapsto> Str ''CEO'', ''Contact_Email'' \<mapsto> NaN, ''Contact_Phone'' \<mapsto> NaN,
      ''lead_score'' \<mapsto> Num 0.12, ''category'' \<mapsto> Str ''Low Priority'',
      ''data_completeness'' \<mapsto> Num 0.25]"

definition nan_table :: table where
  "nan_table =
     \<lparr>columns = [''Company'', ''Contact_Name'', ''Contact_Title'', ''Contact_Email'',
                 ''Contact_Phone'', ''lead_score'', ''category'', ''data_completeness''],
      rows = [nan_lead]\<rparr>"

text \<open>A scored lead with an e-mail address whose company, phone and website cells hold
  the string "N/A".\<close>

definition na_company_lead :: row where
  "na_company_lead =
     [''Company'' \<mapsto> Str ''N/A'', ''Contact_Name'' \<mapsto> Str ''Jane Smith'',
      ''Contact_Title'' \<mapsto> Str ''CEO'', ''Contact_Email'' \<mapsto> Str ''jane@acme.io'',
      ''Contact_Phone'' \<mapsto> Str ''N/A'', ''Website'' \<mapsto> Str ''N/A'',
      ''City'' \<mapsto> Str ''Austin'', ''State'' \<mapsto> Str ''TX'',
      ''lead_score'' \<mapsto> Num 0.95, ''category'' \<mapsto> Str ''Hot Lead'',
      ''data_completeness'' \<mapsto> Num 0.5]"

section \<open>The labelling rule of the specification\<close>





section \<open>Notions for the task list\<close>

text \<open>The score cell of a row; a scored row holds a number there.\<close>

definition lead_score_of :: "row \<Rightarrow> real" where
  "lead_score_of r = number_of (r ''lead_score'')"

definition scored :: "row \<Rightarrow> bool" where
  "scored r = (case r ''lead_score'' of Some (Num x) \<Rightarrow> True | _ \<Rightarrow> False)"

text \<open>What the claim says of a task: its priority, its due date and its type; a hot
  lead is to get an urgent call, any other lead with a task a research task.\<close>

definition task_kind :: "(string \<times> string) list \<Rightarrow> string option \<times> string option \<times> string option" where
  "task_kind t = (map_of t ''priority'', map_of t ''due_date'', map_of t ''task_type'')"

definition expected_kind :: "row \<Rightarrow> string option \<times> string option \<times> string option" where
  "expected_kind r =
     (if 0.8 \<le> lead_score_of r then (Some ''High'', Some ''1 day'', Some ''call'')
      else (Some ''Medium'', Some ''3 days'', Some ''research''))"

text \<open>The task of a lead in full: the urgent call names the lead's company, its score
  as a rounded percentage and its contact; the research task names the company and the
  score.\<close>

definition call_task :: "(real \<Rightarrow> string) \<Rightarrow> row \<Rightarrow> (string \<times> string) list" where
  "call_task float_repr r =
     [(''title'', ''URGENT: Call '' @ py_str float_repr (row_get r ''Company'' (Str ''Unknown Company''))),
      (''description'', ''Hot lead ('' @ percent_text (row_get r ''lead_score'' (Num 0))
                          @ ''% score). Contact: ''
                          @ py_str float_repr (row_get r ''Contact_Name'' (Str ''Unknown Contact''))),
      (''priority'', ''High''),
      (''due_date'', ''1 day''),
      (''task_type'', ''call'')]"

definition research_task :: "(real \<Rightarrow> string) \<Rightarrow> row \<Rightarrow> (string \<times> string) list" where
  "research_task float_repr r =
     [(''title'', ''Research and reach out to ''
                    @ py_str float_repr (row_get r ''Company'' (Str ''Unknown Company''))),
      (''description'', ''Warm lead ('' @ percent_text (row_get r ''lead_score'' (Num 0))
                          @ ''% score). Research before calling.''),
      (''priority'', ''Medium''),
      (''due_date'', ''3 days''),
      (''task_type'', ''research'')]"

definition task_for :: "(real \<Rightarrow> string) \<Rightarrow> row \<Rightarrow> (string \<times> string) list" where
  "task_for float_repr r =
     (if 0.8 \<le> lead_score_of r then call_task float_repr r else research_task float_repr r)"

text \<open>A scored table of twelve leads, two of them with equal scores.\<close>

definition scored_lead :: "string \<Rightarrow> real \<Rightarrow> row" where
  "scored_lead company s =
     [''Company'' \<mapsto> Str company, ''Contact_Name'' \<mapsto> Str (''Head of '' @ company),
      ''lead_score'' \<mapsto> Num s]"

definition demo_scored :: table where
  "demo_scored =
     \<lparr>columns = [''Company'', ''lead_score''],
      rows = [scored_lead ''A'' 0.95, scored_lead ''B'' 0.55, scored_lead ''C'' 0.85,
              scored_lead ''D'' 0.7, scored_lead ''E'' 0.7, scored_lead ''F'' 0.3,
              scored_lead ''G'' 0.9, scored_lead ''H'' 0.2, scored_lead ''I'' 0.1,
              scored_lead ''J'' 0.65, scored_lead ''K'' 0.4, scored_lead ''L'' 0.5]\<rparr>"

section \<open>Notions for the feature-engineering step\<close>

text \<open>The table \<open>out\<close> has the rows of \<open>inp\<close>, in order, each with the same cells
  outside the columns \<open>cols\<close> and a number in every column of \<open>cols\<close>, and its columns
  are those of \<open>inp\<close> together with \<open>cols\<close>.\<close>

definition extends_with :: "string list \<Rightarrow> table \<Rightarrow> table \<Rightarrow> bool" where
  "extends_with cols inp out \<longleftrightarrow>
     length (rows out) = length (rows inp) \<and>
     set (columns out) = set (columns inp) \<union> set cols \<and>
     (\<forall>i < length (rows inp).
        (\<forall>k. k \<notin> set cols \<longrightarrow> (rows out ! i) k = (rows inp ! i) k) \<and>
        (\<forall>k \<in> set cols. \<exists>x. (rows out ! i) k = Some (Num x)))"

text \<open>A raw table of one lead.\<close>

definition raw_leads :: table where
  "raw_leads =
     \<lparr>columns = [''Industry'', ''Website'', ''Contact_Name'', ''Contact_Title'',
                 ''Contact_Email'', ''Contact_Phone''],
      rows = [[''Industry'' \<mapsto> Str ''SaaS'', ''Website'' \<mapsto> NaN, ''Contact_Name'' \<mapsto> Str ''Al Roe'',
               ''Contact_Title'' \<mapsto> Str ''CEO'', ''Contact_Email'' \<mapsto> Str ''al@roe.io'',
               ''Contact_Phone'' \<mapsto> Str ''N/A'']]\<rparr>"

section \<open>What is assumed of scikit-learn\<close>

text \<open>
  Three documented behaviours of the library that the claims about \<^verbatim>\<open>train\<close> and
  \<^verbatim>\<open>predict_scores\<close> rest on. \<^verbatim>\<open>train_test_split\<close> raises \<^verbatim>\<open>ValueError\<close> when there
  are no samples, since the train set would be empty; the labels it hands out for
  training are among the labels it was given; and \<^verbatim>\<open>predict_proba\<close> returns one column
  per class label the classifier saw in \<^verbatim>\<open>fit\<close> (its \<^verbatim>\<open>classes_\<close>).
\<close>

definition rejects_empty_split :: "('sc, 'm) sklearn \<Rightarrow> bool" where
  "rejects_empty_split lib \<longleftrightarrow> (\<exists>msg. train_test_split lib [] [] = Inl (ValueError msg))"

definition split_keeps_labels :: "('sc, 'm) sklearn \<Rightarrow> bool" where
  "split_keeps_labels lib \<longleftrightarrow>
     (\<forall>X y X_train X_test y_train y_test.
        train_test_split lib X y = Inr (X_train, X_test, y_train, y_test) \<longrightarrow>
        set y_train \<subseteq> set y)"

definition proba_columns_are_classes :: "('sc, 'm) sklearn \<Rightarrow> bool" where
  "proba_columns_are_classes lib \<longleftrightarrow>
     (\<forall>X y m X' k P.
        forest_fit lib X y = Inr m \<and> forest_predict_proba lib m X' = Inr (k, P) \<longrightarrow>
        k = card (set y))"

text \<open>
  A small stand-in for the library that meets these three behaviours, to show that they
  can be met together: the split keeps the first four fifths of the rows for training,
  the scaler passes numbers through, and the classifier remembers the classes it saw and
  predicts each of them with equal probability.
\<close>

fun number_cell :: "pyval \<Rightarrow> error + real" where
  "number_cell (Num x) = Inr x"
| "number_cell v = Inl (ValueError ''could not convert to float'')"

definition stub_sklearn :: "(unit, int list) sklearn" where
  "stub_sklearn =
     \<lparr>train_test_split = (\<lambda>X y.
        let n_test = (length X + 4) div 5; n_train = length X - n_test
        in if n_train = 0 then Inl (ValueError ''the resulting train set will be empty'')
           else Inr (take n_train X, drop n_train X, take n_train y, drop n_train y)),
      scaler_fit = (\<lambda>X. if X = [] then Inl (ValueError ''0 samples'') else Inr ()),
      scaler_transform = (\<lambda>sc X.
        if X = [] then Inl (ValueError ''0 samples'') else map_err (map_err number_cell) X),
      forest_fit = (\<lambda>X y. Inr (remdups (sort y))),
      forest_score = (\<lambda>m X y. Inr 1),
      forest_predict_proba = (\<lambda>m X.
        Inr (length m, map (\<lambda>x. map (\<lambda>c. 1 / real (length m)) m) X))\<rparr>"

text \<open>A feature table without rows, and one of five leads without contact data.\<close>

definition empty_features :: table where
  "empty_features = \<lparr>columns = feature_columns, rows = []\<rparr>"

definition poor_lead :: row where
  "poor_lead =
     [''email_quality'' \<mapsto> Num 0, ''phone_quality'' \<mapsto> Num 0, ''title_value'' \<mapsto> Num 0,
      ''data_completeness'' \<mapsto> Num 0, ''industry_fit'' \<mapsto> Num 0.7]"

definition poor_leads :: table where
  "poor_leads =
     \<lparr>columns = feature_columns,
      rows = [poor_lead, poor_lead, poor_lead, poor_lead, poor_lead]\<rparr>"

section \<open>The matcher decides the language\<close>

lemma left_quot_conc:
  "left_quot a (conc A B) = conc (left_quot a A) B \<union> (if [] \<in> A then left_quot a B else {})"
proof (intro set_eqI iffI)
  fix w assume "w \<in> left_quot a (conc A B)"
  then obtain xs ys where *: "a # w = xs @ ys" "xs \<in> A" "ys \<in> B"
    by (auto simp: left_quot_def conc_def)
  show "w \<in> conc (left_quot a A) B \<union> (if [] \<in> A then left_quot a B else {})"
  proof (cases xs)
    case Nil
    with * show ?thesis by (auto simp: left_quot_def)
  next
    case (Cons x xs')
    with * have "w = xs' @ ys" "a # xs' \<in> A" by auto
    with * show ?thesis by (auto simp: left_quot_def conc_def)
  qed
next
  fix w assume "w \<in> conc (left_quot a A) B \<union> (if [] \<in> A then left_quot a B else {})"
  then consider "w \<in> conc (left_quot a A) B" | "[] \<in> A" "w \<in> left_quot a B"
    by (auto split: if_splits)
  then show "w \<in> left_quot a (conc A B)"
  proof cases
    case 1
    then obtain xs ys where "w = xs @ ys" "a # xs \<in> A" "ys \<in> B"
      by (auto simp: left_quot_def conc_def)
    then have "a # w = (a # xs) @ ys \<and> a # xs \<in> A \<and> ys \<in> B" by simp
    then show ?thesis unfolding left_quot_def conc_def by blast
  next
    case 2
    then have "a # w = [] @ (a # w) \<and> [] \<in> A \<and> a # w \<in> B" by (simp add: left_quot_def)
    then show ?thesis unfolding left_quot_def conc_def by blast
  qed
qed

lemma star_cons_split:
  "x \<in> star A \<Longrightarrow> x = a # w \<Longrightarrow> w \<in> conc (left_quot a A) (star A)"
proof (induction arbitrary: w rule: star.induct)
  case star_nil
  then show ?case by simp
next
  case (star_step u v)
  show ?case
  proof (cases u)
    case Nil
    with star_step show ?thesis by simp
  next
    case (Cons c u')
    with star_step have "w = u' @ v" "a # u' \<in> A" by auto
    with star_step(2) show ?thesis by (auto simp: conc_def left_quot_def)
  qed
qed

lemma left_quot_star: "left_quot a (star A) = conc (left_quot a A) (star A)"
proof (intro set_eqI iffI)
  fix w assume "w \<in> left_quot a (star A)"
  then show "w \<in> conc (left_quot a A) (star A)"
    using star_cons_split by (simp add: left_quot_def)
next
  fix w assume "w \<in> conc (left_quot a A) (star A)"
  then obtain xs ys where "w = xs @ ys" "a # xs \<in> A" "ys \<in> star A"
    by (auto simp: conc_def left_quot_def)
  then have "(a # xs) @ ys \<in> star A" by (intro star_step)
  with \<open>w = xs @ ys\<close> show "w \<in> left_quot a (star A)" by (simp add: left_quot_def)
qed

lemma nullable_lang: "nullable r \<longleftrightarrow> [] \<in> lang r"
  by (induction r) (auto simp: conc_def star_nil)

lemma lang_deriv: "lang (deriv a r) = left_quot a (lang r)"
proof (induction r)
  case (Seq r s)
  then show ?case by (simp add: left_quot_conc nullable_lang)
next
  case (Star r)
  then show ?case by (simp add: left_quot_star)
qed (auto simp: left_quot_def)

lemma fullmatch_lang: "fullmatch r s \<longleftrightarrow> s \<in> lang r"
  by (induction s arbitrary: r) (simp_all add: nullable_lang lang_deriv left_quot_def)

lemma star_NotChr: "w \<in> star (lang (NotChr c)) \<longleftrightarrow> c \<notin> set w"
proof
  assume "w \<in> star (lang (NotChr c))"
  then show "c \<notin> set w" by (induction rule: star.induct) auto
next
  assume "c \<notin> set w"
  then show "w \<in> star (lang (NotChr c))"
  proof (induction w)
    case Nil
    then show ?case by (simp add: star_nil)
  next
    case (Cons d w)
    then have "[d] \<in> lang (NotChr c)" "w \<in> star (lang (NotChr c))" by auto
    then have "[d] @ w \<in> star (lang (NotChr c))" by (rule star_step)
    then show ?case by simp
  qed
qed

lemma lang_Plus_NotChr: "w \<in> lang (Plus (NotChr c)) \<longleftrightarrow> w \<noteq> [] \<and> c \<notin> set w"
proof
  assume "w \<in> lang (Plus (NotChr c))"
  then obtain d v where "w = [d] @ v" "d \<noteq> c" "v \<in> star (lang (NotChr c))"
    by (auto simp: Plus_def conc_def)
  then show "w \<noteq> [] \<and> c \<notin> set w" using star_NotChr[of v c] by auto
next
  assume *: "w \<noteq> [] \<and> c \<notin> set w"
  then obtain d v where w: "w = d # v" by (cases w) auto
  with * have "[d] \<in> lang (NotChr c)" "v \<in> star (lang (NotChr c))"
    using star_NotChr[of v c] by auto
  then have "[d] @ v \<in> conc (lang (NotChr c)) (star (lang (NotChr c)))"
    unfolding conc_def by blast
  with w show "w \<in> lang (Plus (NotChr c))" by (simp add: Plus_def)
qed

lemma fullmatch_email_pattern: "fullmatch email_pattern s \<longleftrightarrow> email_shape s"
proof
  assume "fullmatch email_pattern s"
  then have "s \<in> lang email_pattern" by (simp add: fullmatch_lang)
  then obtain l r1 where 1: "s = l @ r1" "l \<in> lang (Plus (NotChr CHR ''@''))"
      "r1 \<in> lang (Seq (Chr CHR ''@'') (Seq (Plus (NotChr CHR ''@'')) (Seq (Chr CHR ''.'') (Plus (NotChr CHR ''@'')))))"
    unfolding email_pattern_def lang.simps(6) conc_def by blast
  from 1(3) obtain r2 where 2: "r1 = ''@'' @ r2"
      "r2 \<in> lang (Seq (Plus (NotChr CHR ''@'')) (Seq (Chr CHR ''.'') (Plus (NotChr CHR ''@''))))"
    unfolding lang.simps(6) conc_def by auto
  from 2(2) obtain a r3 where 3: "r2 = a @ r3" "a \<in> lang (Plus (NotChr CHR ''@''))"
      "r3 \<in> lang (Seq (Chr CHR ''.'') (Plus (NotChr CHR ''@'')))"
    unfolding lang.simps(6) conc_def by blast
  from 3(3) obtain b where 4: "r3 = ''.'' @ b" "b \<in> lang (Plus (NotChr CHR ''@''))"
    unfolding lang.simps(6) conc_def by auto
  from 1 2 3 4 show "email_shape s"
    unfolding email_shape_def lang_Plus_NotChr by blast
next
  assume "email_shape s"
  then obtain l a b where *: "s = l @ ''@'' @ a @ ''.'' @ b" "l \<noteq> []" "a \<noteq> []" "b \<noteq> []"
      "CHR ''@'' \<notin> set l" "CHR ''@'' \<notin> set a" "CHR ''@'' \<notin> set b"
    unfolding email_shape_def by blast
  then have L: "l \<in> lang (Plus (NotChr CHR ''@''))" "a \<in> lang (Plus (NotChr CHR ''@''))"
      "b \<in> lang (Plus (NotChr CHR ''@''))"
    by (simp_all add: lang_Plus_NotChr)
  have "''.'' @ b \<in> lang (Seq (Chr CHR ''.'') (Plus (NotChr CHR ''@'')))"
    using L(3) unfolding lang.simps(6) conc_def by auto
  then have "a @ ''.'' @ b \<in> lang (Seq (Plus (NotChr CHR ''@'')) (Seq (Chr CHR ''.'') (Plus (NotChr CHR ''@''))))"
    using L(2) unfolding lang.simps(6) conc_def by blast
  then have "''@'' @ a @ ''.'' @ b \<in> lang (Seq (Chr CHR ''@'') (Seq (Plus (NotChr CHR ''@'')) (Seq (Chr CHR ''.'') (Plus (NotChr CHR ''@'')))))"
    unfolding lang.simps(6)[of "Chr CHR ''@''"] conc_def by auto
  then have "l @ ''@'' @ a @ ''.'' @ b \<in> lang email_pattern"
    using L(1) unfolding email_pattern_def lang.simps(6)[of "Plus (NotChr CHR ''@'')"] conc_def by blast
  with * show "fullmatch email_pattern s" by (simp add: fullmatch_lang)
qed

lemma email_shape_butlast:
  assumes "s \<noteq> []" "last s = CHR 0x0A" "email_shape (butlast s)"
  shows "email_shape s"
proof -
  from assms(3) obtain l a b where *: "butlast s = l @ ''@'' @ a @ ''.'' @ b" "l \<noteq> []" "a \<noteq> []" "b \<noteq> []"
      "CHR ''@'' \<notin> set l" "CHR ''@'' \<notin> set a" "CHR ''@'' \<notin> set b"
    unfolding email_shape_def by blast
  have "s = butlast s @ [last s]" using assms(1) by simp
  with * assms(2) have "s = l @ ''@'' @ a @ ''.'' @ (b @ [CHR 0x0A])" by simp
  moreover have "CHR ''@'' \<notin> set (b @ [CHR 0x0A])" using *(7) by simp
  ultimately show ?thesis unfolding email_shape_def using *(2,3,5,6) by blast
qed

lemma re_match_email_shape: "re_match_anchored email_pattern s \<longleftrightarrow> email_shape s"
  unfolding re_match_anchored_def fullmatch_email_pattern
  using email_shape_butlast by blast

lemma split_on_no_sep: "sep \<notin> set s \<Longrightarrow> split_on sep s = [s]"
  by (induction s) auto

lemma split_on_append:
  "sep \<notin> set l \<Longrightarrow> split_on sep (l @ sep # r) = l # split_on sep r"
  by (induction l) auto

section \<open>Substrings\<close>

lemma starts_with_iff: "starts_with k s \<longleftrightarrow> (\<exists>q. s = k @ q)"
  by (induction k s rule: starts_with.induct) auto

lemma contains_iff: "contains k s \<longleftrightarrow> is_substring k s"
proof (induction s)
  case Nil
  then show ?case by (auto simp: is_substring_def)
next
  case (Cons c cs)
  show ?case
  proof
    assume "contains k (c # cs)"
    then consider "starts_with k (c # cs)" | "contains k cs" by auto
    then show "is_substring k (c # cs)"
    proof cases
      case 1
      then obtain q where "c # cs = [] @ k @ q" by (auto simp: starts_with_iff)
      then show ?thesis unfolding is_substring_def by blast
    next
      case 2
      with Cons obtain p q where "cs = p @ k @ q" by (auto simp: is_substring_def)
      then have "c # cs = (c # p) @ k @ q" by simp
      then show ?thesis unfolding is_substring_def by blast
    qed
  next
    assume "is_substring k (c # cs)"
    then obtain p q where *: "c # cs = p @ k @ q" by (auto simp: is_substring_def)
    show "contains k (c # cs)"
    proof (cases p)
      case Nil
      with * have "starts_with k (c # cs)" by (auto simp: starts_with_iff)
      then show ?thesis by simp
    next
      case (Cons d p')
      with * have "cs = p' @ k @ q" by simp
      then have "is_substring k cs" unfolding is_substring_def by blast
      with Cons.IH show ?thesis by simp
    qed
  qed
qed

lemma contains_any_iff: "contains_any ks s \<longleftrightarrow> (\<exists>k \<in> set ks. is_substring k s)"
  by (simp add: contains_any_def list_ex_iff contains_iff)

lemma count_filled_na:
  "count_filled (r(f \<mapsto> Str ''N/A'')) fs n = count_filled (r(f \<mapsto> NaN)) fs n"
  by (induction fs arbitrary: n) (auto simp: row_item_def isna_def split: option.splits)

section \<open>The e-mail pattern and the domain\<close>

lemma dropWhile_upto:
  "c \<notin> set l \<Longrightarrow> dropWhile (\<lambda>x. x \<noteq> c) (l @ c # d) = c # d"
  by (induction l) auto

lemma email_shape_domain:
  assumes "email_shape s"
  shows "index (split_on CHR ''@'' s) 1 = Inr (domain_of s)"
proof -
  from assms obtain l a b where *: "s = l @ ''@'' @ a @ ''.'' @ b"
      "CHR ''@'' \<notin> set l" "CHR ''@'' \<notin> set a" "CHR ''@'' \<notin> set b"
    unfolding email_shape_def by blast
  define d where "d = a @ ''.'' @ b"
  have nd: "CHR ''@'' \<notin> set d" using * by (simp add: d_def)
  have s: "s = l @ CHR ''@'' # d" using * by (simp add: d_def)
  have "split_on CHR ''@'' s = [l, d]"
    unfolding s using *(2) nd by (simp add: split_on_append split_on_no_sep)
  moreover have "dropWhile (\<lambda>c. c \<noteq> CHR ''@'') s = CHR ''@'' # d"
    unfolding s using *(2) by (rule dropWhile_upto)
  ultimately show ?thesis by (simp add: index_def domain_of_def)
qed

lemma email_shape_not_na: "email_shape s \<Longrightarrow> s \<noteq> ''N/A''"
  by (auto simp: email_shape_def append_eq_Cons_conv)

section \<open>Names and contact records\<close>

lemma dropWhile_none: "\<forall>c \<in> set s. \<not> P c \<Longrightarrow> dropWhile P s = s"
  by (cases s) simp_all

lemma strip_no_space: "\<forall>c \<in> set s. \<not> is_space c \<Longrightarrow> strip s = s"
proof -
  assume a: "\<forall>c \<in> set s. \<not> is_space c"
  then have "dropWhile is_space s = s" by (rule dropWhile_none)
  moreover have "\<forall>c \<in> set (rev s). \<not> is_space c" using a by simp
  then have "dropWhile is_space (rev s) = rev s" by (rule dropWhile_none)
  ultimately show ?thesis by (simp add: strip_def)
qed

lemma dropWhile_all: "\<forall>c \<in> set s. P c \<Longrightarrow> dropWhile P s = []"
  by (induction s) simp_all

lemma split_first_blank_token: "CHR 0x20 \<notin> set s \<Longrightarrow> split_first_blank s = [s]"
proof -
  assume "CHR 0x20 \<notin> set s"
  then have "\<forall>c \<in> set s. c \<noteq> CHR 0x20" by blast
  then have "dropWhile (\<lambda>c. c \<noteq> CHR 0x20) s = []" by (rule dropWhile_all)
  then show ?thesis by (simp only: split_first_blank_def list.case)
qed

lemma format_contact_Inr:
  assumes "format_contact float_repr today r = Inr c"
  shows "\<exists>a b d.
     c = [(''email'', unless_na (row_get r ''Contact_Email'' PNone)),
          (''firstname'', Str (fst (parse_name float_repr (row_get r ''Contact_Name'' (Str ''''))))),
          (''lastname'', Str (snd (parse_name float_repr (row_get r ''Contact_Name'' (Str ''''))))),
          (''jobtitle'', unless_na (row_get r ''Contact_Title'' PNone)),
          (''phone'', unless_na (row_get r ''Contact_Phone'' PNone)),
          (''company'', row_get r ''Company'' (Str '''')),
          (''website'', unless_na (row_get r ''Website'' PNone)),
          (''city'', row_get r ''City'' (Str '''')),
          (''state'', row_get r ''State'' (Str '''')),
          (''ai_lead_score'', Num (of_int a)),
          (''lead_quality_category'', row_get r ''category'' (Str '''')),
          (''lead_priority'', Str b),
          (''data_completeness_score'', Num (of_int d)),
          (''lead_source'', Str ''SaaSSquatch Enhanced''),
          (''last_updated'', Str today)]"
  using assms unfolding format_contact_def
  by (auto split: sum.splits prod.splits)

lemma format_contact_returns:
  assumes "r ''lead_score'' = None \<or> (\<exists>x. r ''lead_score'' = Some (Num x))"
      and "r ''data_completeness'' = None \<or> (\<exists>x. r ''data_completeness'' = Some (Num x))"
  shows "\<exists>c. format_contact float_repr today r = Inr c"
proof -
  from assms(1) obtain x where x: "row_get r ''lead_score'' (Num 0) = Num x"
    by (auto simp: row_get_def)
  from assms(2) obtain y where y: "row_get r ''data_completeness'' (Num 0) = Num y"
    by (auto simp: row_get_def)
  show ?thesis
    unfolding format_contact_def x y by (simp add: get_priority_level_def split: prod.splits)
qed

lemma parse_name_token:
  assumes "tok \<noteq> ''N/A''" "\<forall>ch \<in> set tok. \<not> is_space ch"
  shows "parse_name float_repr (Str tok) = (tok, '''')"
proof -
  have "is_space (CHR 0x20)" by (simp add: is_space_def)
  with assms(2) have "CHR 0x20 \<notin> set tok" by blast
  then have "split_first_blank tok = [tok]" by (rule split_first_blank_token)
  with assms show ?thesis by (simp add: parse_name_def isna_def strip_no_space)
qed

section \<open>Label synthesis\<close>




section \<open>Top leads and tasks\<close>

lemma scoredD: "scored r \<Longrightarrow> \<exists>x. r ''lead_score'' = Some (Num x)"
  by (auto simp: scored_def split: option.splits pyval.splits)

lemma scored_filters:
  assumes "list_all scored xs"
  shows "filter (\<lambda>r. r ''lead_score'' \<noteq> Some NaN) xs = xs"
    and "filter (\<lambda>r. r ''lead_score'' = Some NaN) xs = []"
    and "list_all (\<lambda>r. is_number (r ''lead_score'')) xs"
  using assms by (induction xs) (auto dest: scoredD)

lemma nlargest_scored:
  assumes "''lead_score'' \<in> set (columns df)" "list_all scored (rows df)"
  shows "nlargest n ''lead_score'' df = Inr (take n (sort_key (\<lambda>r. - lead_score_of r) (rows df)))"
  using assms scored_filters[OF assms(2)]
  by (simp add: nlargest_def lead_score_of_def)

lemma lead_task_scored:
  assumes "scored r"
  shows "lead_task float_repr r = Inr None \<and> \<not> 0.6 \<le> lead_score_of r \<or>
         (\<exists>t. lead_task float_repr r = Inr (Some t) \<and> 0.6 \<le> lead_score_of r \<and>
              t = task_for float_repr r)"
proof -
  from scoredD[OF assms] obtain x where x: "r ''lead_score'' = Some (Num x)" by blast
  then have g: "row_get r ''lead_score'' (Num 0) = Num x" by (simp add: row_get_def)
  show ?thesis
    unfolding lead_task_def g
    by (auto simp: Let_def lead_score_of_def x g task_for_def call_task_def research_task_def)
qed

lemma collect_tasks_scored:
  assumes "list_all scored xs"
  shows "\<exists>ts. collect_tasks float_repr xs = Inr ts \<and>
           ts = map (task_for float_repr) (filter (\<lambda>r. 0.6 \<le> lead_score_of r) xs)"
  using assms
proof (induction xs)
  case Nil
  then show ?case by simp
next
  case (Cons r xs)
  then obtain ts where ts: "collect_tasks float_repr xs = Inr ts"
      "ts = map (task_for float_repr) (filter (\<lambda>r. 0.6 \<le> lead_score_of r) xs)"
    by auto
  from Cons.prems have "scored r" by simp
  from lead_task_scored[OF this, of float_repr] show ?case
  proof
    assume "lead_task float_repr r = Inr None \<and> \<not> 0.6 \<le> lead_score_of r"
    with ts show ?thesis by simp
  next
    assume "\<exists>t. lead_task float_repr r = Inr (Some t) \<and> 0.6 \<le> lead_score_of r \<and>
              t = task_for float_repr r"
    with ts show ?thesis by auto
  qed
qed

lemma filter_take_prefix: "prefix (filter P (take n xs)) (filter P xs)"
proof -
  have "filter P xs = filter P (take n xs) @ filter P (drop n xs)"
    by (metis append_take_drop_id filter_append)
  then show ?thesis by (simp add: prefix_def)
qed

lemma sorted_take_drop_le:
  assumes "sorted (map f xs)" "a \<in> set (take n xs)" "b \<in> set (drop n xs)"
  shows "f a \<le> f b"
proof -
  have "sorted (map f (take n xs) @ map f (drop n xs))"
    using assms(1) by (metis append_take_drop_id map_append)
  then show ?thesis using assms(2,3) by (auto simp: sorted_append)
qed

lemma top_rows_properties:
  fixes xs :: "row list" and n :: nat
  defines "top_leads \<equiv> take n (sort_key (\<lambda>r. - lead_score_of r) xs)"
  shows "length top_leads = min n (length xs)"
    and "mset top_leads \<subseteq># mset xs"
    and "sorted_wrt (\<lambda>a b. lead_score_of b \<le> lead_score_of a) top_leads"
    and "\<forall>r \<in># mset xs - mset top_leads. \<forall>t \<in> set top_leads. lead_score_of r \<le> lead_score_of t"
    and "prefix (filter (\<lambda>r. lead_score_of r = k) top_leads) (filter (\<lambda>r. lead_score_of r = k) xs)"
proof -
  let ?key = "\<lambda>r. - lead_score_of r"
  let ?full = "sort_key ?key xs"
  have m: "mset ?full = mset xs" by simp
  have split: "mset xs = mset top_leads + mset (drop n ?full)"
    unfolding top_leads_def by (metis m append_take_drop_id mset_append)
  show "length top_leads = min n (length xs)" by (simp add: top_leads_def min.commute)
  show "mset top_leads \<subseteq># mset xs" unfolding split by simp
  have s: "sorted (map ?key ?full)" by (rule sorted_sort_key)
  then have "sorted (map ?key top_leads)"
    unfolding top_leads_def by (simp add: take_map[symmetric] sorted_wrt_take)
  then show "sorted_wrt (\<lambda>a b. lead_score_of b \<le> lead_score_of a) top_leads"
    by (simp add: sorted_map)
  have "mset xs - mset top_leads = mset (drop n ?full)" unfolding split by simp
  moreover have "\<forall>r \<in> set (drop n ?full). \<forall>t \<in> set top_leads. lead_score_of r \<le> lead_score_of t"
    using sorted_take_drop_le[OF s] unfolding top_leads_def by fastforce
  ultimately show "\<forall>r \<in># mset xs - mset top_leads. \<forall>t \<in> set top_leads. lead_score_of r \<le> lead_score_of t"
    by simp
  have "filter (\<lambda>r. lead_score_of r = k) ?full = filter (\<lambda>r. lead_score_of r = k) xs"
    using sort_key_stable[of ?key "- k" xs] by simp
  then show "prefix (filter (\<lambda>r. lead_score_of r = k) top_leads) (filter (\<lambda>r. lead_score_of r = k) xs)"
    unfolding top_leads_def using filter_take_prefix by metis
qed

lemma scored_lead_simps:
  "lead_score_of (scored_lead c s) = s" "scored (scored_lead c s)"
  "scored_lead c s ''lead_score'' = Some (Num s)"
  by (simp_all add: scored_lead_def lead_score_of_def scored_def)

lemma task_kind_task_for: "task_kind (task_for float_repr r) = expected_kind r"
  by (simp add: task_kind_def task_for_def call_task_def research_task_def expected_kind_def)

lemma scored_lead_cells:
  "row_get (scored_lead c s) ''Company'' d = Str c"
  "row_get (scored_lead c s) ''Contact_Name'' d = Str (''Head of '' @ c)"
  "row_get (scored_lead c s) ''lead_score'' d = Num s"
  by (simp_all add: scored_lead_def row_get_def)

lemma py_round_of_int: "py_round (of_int n) = n"
  by (simp add: py_round_def)

lemma demo_percents:
  "fmul (19 / 20) 100 = 95" "fmul (9 / 10) 100 = 90" "fmul (17 / 20) 100 = 85"
  "fmul (7 / 10) 100 = 70" "fmul (13 / 20) 100 = 65"
  by code_simp+

lemma demo_percent_texts:
  "format_0f 95 = ''95''" "format_0f 90 = ''90''" "format_0f 85 = ''85''"
  "format_0f 70 = ''70''" "format_0f 65 = ''65''"
  using py_round_of_int[of 95] py_round_of_int[of 90] py_round_of_int[of 85]
    py_round_of_int[of 70] py_round_of_int[of 65]
  by (simp_all add: format_0f_def)

lemma demo_sorted:
  "sort_key (\<lambda>r. - lead_score_of r) (rows demo_scored) =
     [scored_lead ''A'' 0.95, scored_lead ''G'' 0.9, scored_lead ''C'' 0.85,
          scored_lead ''D'' 0.7, scored_lead ''E'' 0.7, scored_lead ''J'' 0.65,
          scored_lead ''B'' 0.55, scored_lead ''L'' 0.5, scored_lead ''K'' 0.4,
          scored_lead ''F'' 0.3, scored_lead ''H'' 0.2, scored_lead ''I'' 0.1]"
  by (simp add: demo_scored_def scored_lead_simps)

lemma demo_scored_ok:
  "''lead_score'' \<in> set (columns demo_scored)" "list_all scored (rows demo_scored)"
  by (simp_all add: demo_scored_def scored_lead_simps)

lemma demo_scored_top:
  "nlargest 10 ''lead_score'' demo_scored =
     Inr [scored_lead ''A'' 0.95, scored_lead ''G'' 0.9, scored_lead ''C'' 0.85,
          scored_lead ''D'' 0.7, scored_lead ''E'' 0.7, scored_lead ''J'' 0.65,
          scored_lead ''B'' 0.55, scored_lead ''L'' 0.5, scored_lead ''K'' 0.4,
          scored_lead ''F'' 0.3]"
  unfolding nlargest_scored[OF demo_scored_ok] demo_sorted by simp

section \<open>Column assignment on the store\<close>

lemma map_err_Inr:
  "map_err f xs = Inr ys \<Longrightarrow> length ys = length xs \<and> (\<forall>i < length xs. f (xs ! i) = Inr (ys ! i))"
proof (induction xs arbitrary: ys)
  case Nil
  then show ?case by simp
next
  case (Cons x xs)
  then obtain y ys' where *: "f x = Inr y" "map_err f xs = Inr ys'" "ys = y # ys'"
    by (auto split: sum.splits)
  with Cons.IH[OF *(2)] show ?case by (auto simp: nth_Cons split: nat.splits)
qed

lemma map_err_all_Num:
  assumes "\<And>x y. F x = Inr y \<Longrightarrow> \<exists>z. y = Num z"
  shows "map_err F xs = Inr ys \<Longrightarrow> \<forall>v \<in> set ys. \<exists>z. v = Num z"
proof (induction xs arbitrary: ys)
  case Nil
  then show ?case by simp
next
  case (Cons x xs)
  then obtain y ys' where *: "F x = Inr y" "map_err F xs = Inr ys'" "ys = y # ys'"
    by (auto split: sum.splits)
  from assms[OF *(1)] Cons.IH[OF *(2)] *(3) show ?case by simp
qed

lemma apply_column_Inr:
  assumes "apply_column df name f = Inr vals"
  shows "\<forall>v \<in> set vals. \<exists>x. v = Num x"
proof -
  from assms obtain cells where
    c: "map_err (\<lambda>v. case f v of Inl e \<Rightarrow> Inl e | Inr x \<Rightarrow> Inr (Num x)) cells = Inr vals"
    by (auto simp: apply_column_def split: sum.splits)
  show ?thesis
  proof (rule map_err_all_Num[OF _ c])
    fix x y assume "(case f x of Inl e \<Rightarrow> Inl e | Inr x \<Rightarrow> Inr (Num x)) = Inr y"
    then show "\<exists>z. y = Num z" by (auto split: sum.splits)
  qed
qed

lemma calculate_completeness_Inr:
  assumes "calculate_completeness df = Inr vals"
  shows "\<forall>v \<in> set vals. \<exists>x. v = Num x"
proof -
  from assms have m: "map_err row_completeness (rows df) = Inr vals"
    by (simp add: calculate_completeness_def)
  show ?thesis
  proof (rule map_err_all_Num[OF _ m])
    fix x y assume "row_completeness x = Inr y"
    then show "\<exists>z. y = Num z" by (auto simp: row_completeness_def split: sum.splits)
  qed
qed

lemma extends_with_refl: "extends_with [] inp inp"
  by (simp add: extends_with_def)

lemma extends_with_set_column:
  assumes "extends_with cols inp t0" "set_column t0 name vals = Inr t"
      and "\<forall>v \<in> set vals. \<exists>x. v = Num x"
  shows "extends_with (cols @ [name]) inp t"
proof -
  from assms(2) have len: "length vals = length (rows t0)"
    and t: "t = \<lparr>columns = (if name \<in> set (columns t0) then columns t0 else columns t0 @ [name]),
                 rows = map2 (\<lambda>r v. r(name \<mapsto> v)) (rows t0) vals\<rparr>"
    by (auto simp: set_column_def split: if_splits)
  from assms(1) have e: "length (rows t0) = length (rows inp)"
     "set (columns t0) = set (columns inp) \<union> set cols"
     "\<forall>i < length (rows inp).
        (\<forall>k. k \<notin> set cols \<longrightarrow> (rows t0 ! i) k = (rows inp ! i) k) \<and>
        (\<forall>k \<in> set cols. \<exists>x. (rows t0 ! i) k = Some (Num x))"
    by (simp_all add: extends_with_def)
  have r: "\<forall>i < length (rows inp). rows t ! i = (rows t0 ! i)(name \<mapsto> vals ! i)"
    using len e(1) by (simp add: t)
  have v: "\<forall>i < length (rows inp). \<exists>x. vals ! i = Num x"
    using assms(3) len e(1) by (simp add: all_set_conv_all_nth)
  show ?thesis
    unfolding extends_with_def
  proof (intro conjI allI impI)
    show "length (rows t) = length (rows inp)" using len e(1) by (simp add: t)
    show "set (columns t) = set (columns inp) \<union> set (cols @ [name])"
      using e(2) by (auto simp: t)
  next
    fix i k assume "i < length (rows inp)" "k \<notin> set (cols @ [name])"
    then show "(rows t ! i) k = (rows inp ! i) k" using r e(3) by simp
  next
    fix i assume i: "i < length (rows inp)"
    show "\<forall>k \<in> set (cols @ [name]). \<exists>x. (rows t ! i) k = Some (Num x)"
    proof
      fix k assume "k \<in> set (cols @ [name])"
      then consider "k = name" | "k \<noteq> name" "k \<in> set cols" by auto
      then show "\<exists>x. (rows t ! i) k = Some (Num x)"
      proof cases
        case 1
        then show ?thesis using r v i by simp
      next
        case 2
        then show ?thesis using r e(3) i by simp
      qed
    qed
  qed
qed

lemma assign_frame:
  assumes "length s = Suc n" "\<forall>a < n. s ! a = st ! a"
      and "assign_column s n name c = (res, s')"
  shows "length s' = Suc n \<and> (\<forall>a < n. s' ! a = st ! a)"
  using assms unfolding assign_column_def by (auto split: sum.splits)

lemma assign_ext:
  assumes ext: "extends_with cols inp (s ! n)"
      and len: "length s = Suc n"
      and comp: "\<And>vals. c = Inr vals \<Longrightarrow> \<forall>v \<in> set vals. \<exists>x. v = Num x"
      and run: "assign_column s n name c = (Inr u, s')"
  shows "extends_with (cols @ [name]) inp (s' ! n)"
proof -
  from run obtain vals t where *: "c = Inr vals" "set_column (s ! n) name vals = Inr t" "s' = s[n := t]"
    unfolding assign_column_def by (auto split: sum.splits)
  have "extends_with (cols @ [name]) inp t"
    using ext *(2) comp[OF *(1)] by (rule extends_with_set_column)
  with *(3) len show ?thesis by simp
qed

section \<open>Training and prediction\<close>

lemma stub_contracts:
  "rejects_empty_split stub_sklearn" "split_keeps_labels stub_sklearn"
  "proba_columns_are_classes stub_sklearn"
proof -
  show "rejects_empty_split stub_sklearn"
    by (simp add: rejects_empty_split_def stub_sklearn_def)
  show "split_keeps_labels stub_sklearn"
    by (auto simp: split_keeps_labels_def stub_sklearn_def Let_def split: if_splits dest: in_set_takeD)
  show "proba_columns_are_classes stub_sklearn"
    by (auto simp: proba_columns_are_classes_def stub_sklearn_def length_remdups_card_conv)
qed

lemma select_values_missing:
  "\<not> set cols \<subseteq> set (columns df) \<Longrightarrow> select_values df cols = Inl KeyError"
  by (simp add: select_values_def)

lemma select_values_empty:
  "set cols \<subseteq> set (columns df) \<Longrightarrow> rows df = [] \<Longrightarrow> select_values df cols = Inr []"
  by (simp add: select_values_def)

lemma train_success:
  assumes "train lib self df draws = (Inr result, self')"
  shows "\<exists>X y X_train X_test y_train y_test sc X_train_scaled m.
           create_training_labels df draws = Inr y \<and>
           train_test_split lib X y = Inr (X_train, X_test, y_train, y_test) \<and>
           forest_fit lib X_train_scaled y_train = Inr m \<and>
           self' = self\<lparr>scaler := Some sc, model := Some m, is_trained := True\<rparr>"
  using assms unfolding train_def Let_def
  by (auto split: sum.splits prod.splits) blast

lemma train_failure_keeps_flag:
  assumes "fst (train lib self df draws) = Inl e"
  shows "is_trained (snd (train lib self df draws)) = is_trained self"
  using assms unfolding train_def Let_def
  by (auto split: sum.splits prod.splits)

lemma predict_scores_one_column:
  assumes "scaler self = Some sc" "model self = Some m" "is_trained self"
      and "\<And>X k P. forest_predict_proba lib m X = Inr (k, P) \<Longrightarrow> k \<le> 1"
  shows "\<exists>e. predict_scores lib self df = Inl e"
proof (cases "select_values df feature_columns")
  case (Inl e)
  with assms(3) show ?thesis by (simp add: predict_scores_def)
next
  case X: (Inr X)
  show ?thesis
  proof (cases "scaler_transform lib sc X")
    case (Inl e)
    with assms(1,3) X show ?thesis by (simp add: predict_scores_def)
  next
    case Xs: (Inr X_scaled)
    show ?thesis
    proof (cases "forest_predict_proba lib m X_scaled")
      case (Inl e)
      with assms(1,2,3) X Xs show ?thesis by (simp add: predict_scores_def)
    next
      case (Inr proba)
      obtain k P where kp: "proba = (k, P)" by (cases proba)
      with Inr assms(4) have "k \<le> 1" by blast
      then have "take_column proba 1 = Inl IndexError" by (simp add: take_column_def kp)
      with assms(1,2,3) X Xs Inr show ?thesis by (simp add: predict_scores_def)
    qed
  qed
qed

lemma poor_lead_label: "row_label poor_lead (1 / 100) = Inr 0"
  by code_simp

lemma poor_labels: "create_training_labels poor_leads (sconst 0.01) = Inr [0, 0, 0, 0, 0]"
  by (simp add: create_training_labels_def poor_leads_def poor_lead_label)

lemma poor_values:
  "select_values poor_leads feature_columns =
     Inr [[Num 0, Num 0, Num 0, Num 0, Num 0.7], [Num 0, Num 0, Num 0, Num 0, Num 0.7],
          [Num 0, Num 0, Num 0, Num 0, Num 0.7], [Num 0, Num 0, Num 0, Num 0, Num 0.7],
          [Num 0, Num 0, Num 0, Num 0, Num 0.7]]"
  by code_simp

lemma poor_train:
  "train stub_sklearn new_scorer poor_leads (sconst 0.01) =
     (Inr [(''train_accuracy'', 1), (''test_accuracy'', 1), (''total_samples'', 5),
           (''positive_leads'', 0)],
      \<lparr>scaler = Some (), model = Some [0], is_trained = True\<rparr>)"
  unfolding train_def poor_labels poor_values
  by code_simp

lemma poor_leads_index_error:
  "predict_scores stub_sklearn \<lparr>scaler = Some (), model = Some [0], is_trained = True\<rparr> poor_leads
     = Inl IndexError"
  by code_simp

section \<open>Float arithmetic: the exponent, and two sums\<close>

text \<open>Within its fuel, \<^verbatim>\<open>binary_exponent\<close> finds the exponent of a positive number.\<close>

lemma binary_exponent_bounds:
  "0 < x \<Longrightarrow> 2 powi (- int fuel) \<le> x \<Longrightarrow> x < 2 powi (int fuel + 1) \<Longrightarrow>
     2 powi (binary_exponent fuel x) \<le> x \<and> x < 2 powi (binary_exponent fuel x + 1)"
proof (induction fuel x rule: binary_exponent.induct)
  case (1 x)
  then show ?case by simp
next
  case (2 fuel x)
  show ?case
  proof (cases "2 \<le> x")
    case True
    have a: "2 powi (- int fuel) \<le> x / 2"
    proof -
      have "(2::real) powi (- int fuel) \<le> 1"
        by (simp add: power_int_minus inverse_le_1_iff)
      with True show ?thesis by simp
    qed
    have b: "x / 2 < 2 powi (int fuel + 1)"
      using "2.prems"(3) by (simp add: power_int_add field_simps)
    from "2.IH"(1)[OF True _ a b] "2.prems"(1)
    have "2 powi (binary_exponent fuel (x / 2)) \<le> x / 2 \<and> x / 2 < 2 powi (binary_exponent fuel (x / 2) + 1)"
      by simp
    with True show ?thesis by (simp add: power_int_add field_simps)
  next
    case False
    show ?thesis
    proof (cases "x < 1")
      case True
      have "(2::real) powi (- int fuel) = 2 powi (- 1 - int fuel) * 2"
        using power_int_add[of "2::real" "- 1 - int fuel" 1] by simp
      moreover have "- int (Suc fuel) = - 1 - int fuel" by simp
      ultimately have "(2::real) powi (- int (Suc fuel)) = 2 powi (- int fuel) / 2"
        by (simp only:)
      with "2.prems"(2) have a: "2 powi (- int fuel) \<le> x * 2"
        by simp
      have "(1::real) \<le> 2 ^ fuel" by simp
      with True have "x < 2 ^ fuel" by (rule less_le_trans)
      then have b: "x * 2 < 2 powi (int fuel + 1)"
        by (simp add: power_int_add)
      from "2.IH"(2)[OF False True _ a b] "2.prems"(1)
      have "2 powi (binary_exponent fuel (x * 2)) \<le> x * 2 \<and> x * 2 < 2 powi (binary_exponent fuel (x * 2) + 1)"
        by simp
      with False True show ?thesis by (simp add: power_int_add power_int_diff field_simps)
    next
      case F2: False
      with False show ?thesis by simp
    qed
  qed
qed

text \<open>The sum \<^verbatim>\<open>0.0 + 0.4 + 0.2\<close> is the float printed as 0.6000000000000001; a sum
  of floats that is itself a float is exact.\<close>

lemma boundary_sum: "fadd (fadd 0 0.4) 0.2 = 5404319552844596 / 2 ^ 53"
  by code_simp

lemma plain_sum: "fadd 0.25 0.5 = 0.75"
  by code_simp

section \<open>Claims\<close>

text \<open>
  C5. The categorizer is a function of the score alone with inclusive lower bounds: a
  score of at least 0.8 is a "Hot Lead", one in [0.6, 0.8) a "Warm Lead", one in
  [0.4, 0.6) a "Cold Lead" and one below 0.4 "Low Priority"; exactly 0.8, 0.6 and 0.4
  fall into the upper bucket. \<^verbatim>\<open>categorize_leads\<close> applies it to each score in order.
\<close>
theorem categorize_thresholds:
  "(0.8 \<le> score \<longrightarrow> categorize score = ''Hot Lead'') \<and>
   (0.6 \<le> score \<and> score < 0.8 \<longrightarrow> categorize score = ''Warm Lead'') \<and>
   (0.4 \<le> score \<and> score < 0.6 \<longrightarrow> categorize score = ''Cold Lead'') \<and>
   (score < 0.4 \<longrightarrow> categorize score = ''Low Priority'') \<and>
   categorize 0.8 = ''Hot Lead'' \<and> categorize 0.6 = ''Warm Lead'' \<and> categorize 0.4 = ''Cold Lead'' \<and>
   length (categorize_leads scores) = length scores \<and>
   (\<forall>i < length scores. categorize_leads scores ! i = categorize (scores ! i))"
  by (simp add: categorize_def categorize_leads_def)

theorem categorize_thresholds_witness:
  "categorize 0.93 = ''Hot Lead'' \<and> categorize 0.7 = ''Warm Lead'' \<and>
   categorize 0.45 = ''Cold Lead'' \<and> categorize 0.39 = ''Low Priority'' \<and>
   categorize_leads [0.93, 0.39] ! 1 = ''Low Priority''"
proof -
  have a: "categorize 0.93 = ''Hot Lead''"
    using categorize_thresholds[of "0.93" "[]"] by simp
  have b: "categorize 0.7 = ''Warm Lead''"
    using categorize_thresholds[of "0.7" "[]"] by simp
  have c: "categorize 0.45 = ''Cold Lead''"
    using categorize_thresholds[of "0.45" "[]"] by simp
  have d: "categorize 0.39 = ''Low Priority''"
    using categorize_thresholds[of "0.39" "[0.93, 0.39]"] by simp
  have "categorize_leads [0.93, 0.39] ! 1 = categorize ([0.93, 0.39] ! 1)"
    using categorize_thresholds[of "0.39" "[0.93, 0.39]"] by simp
  with d have e: "categorize_leads [0.93, 0.39] ! 1 = ''Low Priority''" by simp
  from a b c d e show ?thesis by simp
qed

text \<open>
  C7. \<^verbatim>\<open>industry_fit\<close> is 0.5 for an absent industry, 1.0 when the lower-cased
  industry contains one of the technology keywords, and 0.7 otherwise; the string
  "N/A" is not absent here and yields 0.7, whereas the e-mail, phone and title scorers
  give "N/A" the score 0.0 of an absent cell and the completeness count reads an
  "N/A" field as it reads an absent one.
\<close>
theorem score_industry_cases:
  "(isna v \<longrightarrow> score_industry v = Inr 0.5) \<and>
   ((\<exists>k \<in> set tech_industries. is_substring k (lower s)) \<longrightarrow> score_industry (Str s) = Inr 1.0) \<and>
   (\<not> (\<exists>k \<in> set tech_industries. is_substring k (lower t)) \<longrightarrow> score_industry (Str t) = Inr 0.7) \<and>
   score_industry (Str ''N/A'') = Inr 0.7 \<and>
   score_email (Str ''N/A'') = Inr 0 \<and> score_email NaN = Inr 0 \<and>
   score_phone (Str ''N/A'') = Inr 0 \<and> score_phone NaN = Inr 0 \<and>
   score_title (Str ''N/A'') = Inr 0 \<and> score_title NaN = Inr 0 \<and>
   row_completeness (r(f \<mapsto> Str ''N/A'')) = row_completeness (r(f \<mapsto> NaN))"
proof -
  have 1: "isna v \<longrightarrow> score_industry v = Inr 0.5"
    by (cases v) (simp_all add: isna_def)
  have 2: "(\<exists>k \<in> set tech_industries. is_substring k (lower s)) \<longrightarrow> score_industry (Str s) = Inr 1.0"
    by (simp add: contains_any_iff)
  have 3: "\<not> (\<exists>k \<in> set tech_industries. is_substring k (lower t)) \<longrightarrow> score_industry (Str t) = Inr 0.7"
    by (simp add: contains_any_iff)
  have "lower ''N/A'' = ''n/a''" by (simp add: lower_def lower_char_def upper_letters_def lower_letters_def)
  then have 4: "score_industry (Str ''N/A'') = Inr 0.7"
    by (simp add: contains_any_def tech_industries_def)
  have 5: "row_completeness (r(f \<mapsto> Str ''N/A'')) = row_completeness (r(f \<mapsto> NaN))"
    by (simp add: row_completeness_def count_filled_na)
  from 1 2 3 4 5 show ?thesis by simp
qed

theorem score_industry_cases_witness:
  "score_industry NaN = Inr 0.5 \<and>
   score_industry (Str ''Computer Software Developers'') = Inr 1.0 \<and>
   score_industry (Str ''Consulting'') = Inr 0.7 \<and>
   score_industry (Str ''N/A'') = Inr 0.7"
proof -
  have l1: "lower ''Computer Software Developers'' = ''computer software developers''"
    by (simp add: lower_def lower_char_def upper_letters_def lower_letters_def)
  have "''computer software developers'' = ''computer '' @ ''software'' @ '' developers''" by simp
  then have h1: "\<exists>k \<in> set tech_industries. is_substring k (lower ''Computer Software Developers'')"
    unfolding l1 is_substring_def tech_industries_def by (metis list.set_intros(1))
  have l2: "lower ''Consulting'' = ''consulting''"
    by (simp add: lower_def lower_char_def upper_letters_def lower_letters_def)
  have h2: "\<not> (\<exists>k \<in> set tech_industries. is_substring k (lower ''Consulting''))"
    unfolding l2 contains_iff[symmetric] by (simp add: tech_industries_def)
  have h0: "isna NaN" by (simp add: isna_def)
  from score_industry_cases[of NaN "''Computer Software Developers''" "''Consulting''" Map.empty "''x''"] h0 h1 h2
  show ?thesis by blast
qed

text \<open>
  C4. \<^verbatim>\<open>email_quality\<close> is 0.0 for a missing e-mail (absent, or the string "N/A"), 0.2
  for a present one that fails the \<^verbatim>\<open>local@domain.tld\<close> shape check, 0.6 for a
  well-shaped one whose lower-cased domain is one of gmail.com, yahoo.com, hotmail.com,
  outlook.com, and 1.0 for any other well-shaped one; the four outcomes are strictly
  ordered.
\<close>

theorem score_email_cases:
  "(isna v \<or> v = Str ''N/A'' \<longrightarrow> score_email v = Inr 0.0) \<and>
   (m \<noteq> ''N/A'' \<and> \<not> email_shape m \<longrightarrow> score_email (Str m) = Inr 0.2) \<and>
   (email_shape p \<and> lower (domain_of p) \<in> set personal_domains \<longrightarrow> score_email (Str p) = Inr 0.6) \<and>
   (email_shape b \<and> lower (domain_of b) \<notin> set personal_domains \<longrightarrow> score_email (Str b) = Inr 1.0) \<and>
   (0.0 :: real) < 0.2 \<and> (0.2 :: real) < 0.6 \<and> (0.6 :: real) < 1.0"
proof -
  have 1: "isna v \<or> v = Str ''N/A'' \<longrightarrow> score_email v = Inr 0.0"
    by (cases v) (auto simp: isna_def)
  have 2: "m \<noteq> ''N/A'' \<and> \<not> email_shape m \<longrightarrow> score_email (Str m) = Inr 0.2"
    by (simp add: re_match_email_shape)
  have 3: "email_shape p \<and> lower (domain_of p) \<in> set personal_domains \<longrightarrow> score_email (Str p) = Inr 0.6"
  proof
    assume h: "email_shape p \<and> lower (domain_of p) \<in> set personal_domains"
    then have "p \<noteq> ''N/A''" "re_match_anchored email_pattern p"
      by (simp_all add: email_shape_not_na re_match_email_shape)
    moreover have "index (split_on CHR ''@'' p) 1 = Inr (domain_of p)"
      using h email_shape_domain by blast
    ultimately show "score_email (Str p) = Inr 0.6" using h by simp
  qed
  have 4: "email_shape b \<and> lower (domain_of b) \<notin> set personal_domains \<longrightarrow> score_email (Str b) = Inr 1.0"
  proof
    assume h: "email_shape b \<and> lower (domain_of b) \<notin> set personal_domains"
    then have "b \<noteq> ''N/A''" "re_match_anchored email_pattern b"
      by (simp_all add: email_shape_not_na re_match_email_shape)
    moreover have "index (split_on CHR ''@'' b) 1 = Inr (domain_of b)"
      using h email_shape_domain by blast
    ultimately show "score_email (Str b) = Inr 1.0" using h by simp
  qed
  from 1 2 3 4 show ?thesis by simp
qed

theorem score_email_cases_witness:
  "score_email NaN = Inr 0.0 \<and>
   score_email (Str ''jane.smith-at-acme'') = Inr 0.2 \<and>
   score_email (Str ''Jane@GMail.com'') = Inr 0.6 \<and>
   score_email (Str ''contact7@techflow.com'') = Inr 1.0"
proof -
  have h1: "isna NaN \<or> NaN = Str ''N/A''" by (simp add: isna_def)
  have h2: "''jane.smith-at-acme'' \<noteq> ''N/A'' \<and> \<not> email_shape ''jane.smith-at-acme''"
    unfolding fullmatch_email_pattern[symmetric] by (simp add: email_pattern_def Plus_def)
  have s3: "email_shape ''Jane@GMail.com''"
    unfolding fullmatch_email_pattern[symmetric] by (simp add: email_pattern_def Plus_def)
  have d3: "lower (domain_of ''Jane@GMail.com'') \<in> set personal_domains"
    by (simp add: domain_of_def lower_def lower_char_def upper_letters_def lower_letters_def personal_domains_def)
  have s4: "email_shape ''contact7@techflow.com''"
    unfolding fullmatch_email_pattern[symmetric] by (simp add: email_pattern_def Plus_def)
  have d4: "lower (domain_of ''contact7@techflow.com'') \<notin> set personal_domains"
    by (simp add: domain_of_def lower_def lower_char_def upper_letters_def lower_letters_def personal_domains_def)
  from score_email_cases[of NaN "''jane.smith-at-acme''" "''Jane@GMail.com''" "''contact7@techflow.com''"]
    h1 h2 s3 d3 s4 d4
  show ?thesis by blast
qed

text \<open>
  C3. \<^verbatim>\<open>format_for_hubspot\<close> is to emit a contact for exactly the rows with a
  non-missing e-mail or phone. A row whose e-mail and phone cells are both NaN passes
  \<^verbatim>\<open>_has_contact_info\<close>, since NaN is true and differs from "N/A": the export of
  such a table holds one contact, with NaN as its e-mail and phone. The same row with
  "N/A" in both cells does not pass.
\<close>

theorem format_for_hubspot_keeps_nan_row:
  "isna (row_get nan_lead ''Contact_Email'' PNone) \<and>
   isna (row_get nan_lead ''Contact_Phone'' PNone) \<and>
   has_contact_info nan_lead \<and>
   \<not> has_contact_info (nan_lead(''Contact_Email'' \<mapsto> Str ''N/A'', ''Contact_Phone'' \<mapsto> Str ''N/A'')) \<and>
   (\<exists>ex c. format_for_hubspot float_repr today nan_table = Inr ex \<and> contacts ex = [c] \<and>
        map_of c ''email'' = Some NaN \<and> map_of c ''phone'' = Some NaN)"
  by (simp add: has_contact_info_def nan_lead_def nan_table_def row_get_def format_for_hubspot_def
      format_contact_def parse_name_def isna_def strip_def is_space_def split_first_blank_def
      get_priority_level_def unless_na_def)

text \<open>
  C10, as amended. In every contact record that \<^verbatim>\<open>_format_contact\<close> emits, the
  e-mail, job title, phone and website fields hold the row's cell with the string "N/A"
  replaced by the empty string, so these four fields never hold "N/A"; a record is
  emitted for every row whose score and completeness cells are numbers or absent. A
  missing or "N/A" contact name (and the empty default of an absent column) yields an
  empty first and last name, and a name that is a single token (a string with none of
  the characters that \<^verbatim>\<open>str.strip\<close> removes, the no-break space among them) yields that
  token as first name with an empty last name.
\<close>

theorem format_contact_fields:
  "(format_contact float_repr today r = Inr c \<longrightarrow>
      map_of c ''email'' = Some (if row_get r ''Contact_Email'' PNone = Str ''N/A'' then Str ''''
                                 else row_get r ''Contact_Email'' PNone) \<and>
      map_of c ''jobtitle'' = Some (if row_get r ''Contact_Title'' PNone = Str ''N/A'' then Str ''''
                                 else row_get r ''Contact_Title'' PNone) \<and>
      map_of c ''phone'' = Some (if row_get r ''Contact_Phone'' PNone = Str ''N/A'' then Str ''''
                                 else row_get r ''Contact_Phone'' PNone) \<and>
      map_of c ''website'' = Some (if row_get r ''Website'' PNone = Str ''N/A'' then Str ''''
                                 else row_get r ''Website'' PNone) \<and>
      map_of c ''email'' \<noteq> Some (Str ''N/A'') \<and> map_of c ''jobtitle'' \<noteq> Some (Str ''N/A'') \<and>
      map_of c ''phone'' \<noteq> Some (Str ''N/A'') \<and> map_of c ''website'' \<noteq> Some (Str ''N/A'') \<and>
      map_of c ''firstname'' =
        Some (Str (fst (parse_name float_repr (row_get r ''Contact_Name'' (Str ''''))))) \<and>
      map_of c ''lastname'' =
        Some (Str (snd (parse_name float_repr (row_get r ''Contact_Name'' (Str '''')))))) \<and>
   ((r ''lead_score'' = None \<or> (\<exists>x. r ''lead_score'' = Some (Num x))) \<and>
    (r ''data_completeness'' = None \<or> (\<exists>x. r ''data_completeness'' = Some (Num x))) \<longrightarrow>
      (\<exists>c'. format_contact float_repr today r = Inr c')) \<and>
   (isna n \<or> n = Str ''N/A'' \<longrightarrow> parse_name float_repr n = ('''', '''')) \<and>
   parse_name float_repr (Str '''') = ('''', '''') \<and>
   (tok \<noteq> ''N/A'' \<and> (\<forall>ch \<in> set tok. \<not> is_space ch) \<longrightarrow>
      parse_name float_repr (Str tok) = (tok, ''''))"
proof -
  have 1: "format_contact float_repr today r = Inr c \<longrightarrow>
      map_of c ''email'' = Some (if row_get r ''Contact_Email'' PNone = Str ''N/A'' then Str ''''
                                 else row_get r ''Contact_Email'' PNone) \<and>
      map_of c ''jobtitle'' = Some (if row_get r ''Contact_Title'' PNone = Str ''N/A'' then Str ''''
                                 else row_get r ''Contact_Title'' PNone) \<and>
      map_of c ''phone'' = Some (if row_get r ''Contact_Phone'' PNone = Str ''N/A'' then Str ''''
                                 else row_get r ''Contact_Phone'' PNone) \<and>
      map_of c ''website'' = Some (if row_get r ''Website'' PNone = Str ''N/A'' then Str ''''
                                 else row_get r ''Website'' PNone) \<and>
      map_of c ''email'' \<noteq> Some (Str ''N/A'') \<and> map_of c ''jobtitle'' \<noteq> Some (Str ''N/A'') \<and>
      map_of c ''phone'' \<noteq> Some (Str ''N/A'') \<and> map_of c ''website'' \<noteq> Some (Str ''N/A'') \<and>
      map_of c ''firstname'' =
        Some (Str (fst (parse_name float_repr (row_get r ''Contact_Name'' (Str ''''))))) \<and>
      map_of c ''lastname'' =
        Some (Str (snd (parse_name float_repr (row_get r ''Contact_Name'' (Str '''')))))"
  proof
    assume "format_contact float_repr today r = Inr c"
    from format_contact_Inr[OF this] obtain a b d where c:
     "c = [(''email'', unless_na (row_get r ''Contact_Email'' PNone)),
          (''firstname'', Str (fst (parse_name float_repr (row_get r ''Contact_Name'' (Str ''''))))),
          (''lastname'', Str (snd (parse_name float_repr (row_get r ''Contact_Name'' (Str ''''))))),
          (''jobtitle'', unless_na (row_get r ''Contact_Title'' PNone)),
          (''phone'', unless_na (row_get r ''Contact_Phone'' PNone)),
          (''company'', row_get r ''Company'' (Str '''')),
          (''website'', unless_na (row_get r ''Website'' PNone)),
          (''city'', row_get r ''City'' (Str '''')),
          (''state'', row_get r ''State'' (Str '''')),
          (''ai_lead_score'', Num (of_int a)),
          (''lead_quality_category'', row_get r ''category'' (Str '''')),
          (''lead_priority'', Str b),
          (''data_completeness_score'', Num (of_int d)),
          (''lead_source'', Str ''SaaSSquatch Enhanced''),
          (''last_updated'', Str today)]" by blast
    show "map_of c ''email'' = Some (if row_get r ''Contact_Email'' PNone = Str ''N/A'' then Str ''''
                                 else row_get r ''Contact_Email'' PNone) \<and>
      map_of c ''jobtitle'' = Some (if row_get r ''Contact_Title'' PNone = Str ''N/A'' then Str ''''
                                 else row_get r ''Contact_Title'' PNone) \<and>
      map_of c ''phone'' = Some (if row_get r ''Contact_Phone'' PNone = Str ''N/A'' then Str ''''
                                 else row_get r ''Contact_Phone'' PNone) \<and>
      map_of c ''website'' = Some (if row_get r ''Website'' PNone = Str ''N/A'' then Str ''''
                                 else row_get r ''Website'' PNone) \<and>
      map_of c ''email'' \<noteq> Some (Str ''N/A'') \<and> map_of c ''jobtitle'' \<noteq> Some (Str ''N/A'') \<and>
      map_of c ''phone'' \<noteq> Some (Str ''N/A'') \<and> map_of c ''website'' \<noteq> Some (Str ''N/A'') \<and>
      map_of c ''firstname'' =
        Some (Str (fst (parse_name float_repr (row_get r ''Contact_Name'' (Str ''''))))) \<and>
      map_of c ''lastname'' =
        Some (Str (snd (parse_name float_repr (row_get r ''Contact_Name'' (Str '''')))))"
      unfolding c by (simp add: unless_na_def)
  qed
  have 2: "(r ''lead_score'' = None \<or> (\<exists>x. r ''lead_score'' = Some (Num x))) \<and>
    (r ''data_completeness'' = None \<or> (\<exists>x. r ''data_completeness'' = Some (Num x))) \<longrightarrow>
      (\<exists>c'. format_contact float_repr today r = Inr c')"
    using format_contact_returns by blast
  have 3: "isna n \<or> n = Str ''N/A'' \<longrightarrow> parse_name float_repr n = ('''', '''')"
    by (simp add: parse_name_def)
  have 4: "parse_name float_repr (Str '''') = ('''', '''')"
    by (simp add: parse_name_def isna_def strip_def split_first_blank_def)
  have 5: "tok \<noteq> ''N/A'' \<and> (\<forall>ch \<in> set tok. \<not> is_space ch) \<longrightarrow>
      parse_name float_repr (Str tok) = (tok, '''')"
    using parse_name_token by blast
  from 1 2 3 4 5 show ?thesis by blast
qed

theorem format_contact_fields_witness:
  "(\<exists>c. format_contact (\<lambda>x. '''') ''2025-01-01'' na_company_lead = Inr c \<and>
        map_of c ''email'' = Some (Str ''jane@acme.io'') \<and>
        map_of c ''phone'' = Some (Str '''') \<and>
        map_of c ''website'' = Some (Str '''')) \<and>
   parse_name (\<lambda>x. '''') NaN = ('''', '''') \<and>
   parse_name (\<lambda>x. '''') (Str ''Cher'') = (''Cher'', '''')"
proof -
  have "na_company_lead ''lead_score'' = Some (Num 0.95)"
    by (simp add: na_company_lead_def)
  then have a: "na_company_lead ''lead_score'' = None \<or> (\<exists>x. na_company_lead ''lead_score'' = Some (Num x))"
    by blast
  have "na_company_lead ''data_completeness'' = Some (Num 0.5)"
    by (simp add: na_company_lead_def)
  then have b: "na_company_lead ''data_completeness'' = None \<or>
           (\<exists>x. na_company_lead ''data_completeness'' = Some (Num x))"
    by blast
  have n: "isna NaN \<or> NaN = Str ''N/A''" by (simp add: isna_def)
  have t: "''Cher'' \<noteq> ''N/A'' \<and> (\<forall>ch \<in> set ''Cher''. \<not> is_space ch)"
    by (simp add: is_space_def)
  note th = format_contact_fields[of "\<lambda>x. ''''" "''2025-01-01''" na_company_lead _ NaN "''Cher''"]
  from th a b obtain c where c: "format_contact (\<lambda>x. '''') ''2025-01-01'' na_company_lead = Inr c"
    by blast
  have e: "row_get na_company_lead ''Contact_Email'' PNone = Str ''jane@acme.io''"
          "row_get na_company_lead ''Contact_Phone'' PNone = Str ''N/A''"
          "row_get na_company_lead ''Website'' PNone = Str ''N/A''"
    by (simp_all add: na_company_lead_def row_get_def)
  from th[of c] c e have "map_of c ''email'' = Some (Str ''jane@acme.io'') \<and>
        map_of c ''phone'' = Some (Str '''') \<and> map_of c ''website'' = Some (Str '''')"
    by simp
  moreover from th[of c] n have "parse_name (\<lambda>x. '''') NaN = ('''', '''')" by blast
  moreover from th[of c] t have "parse_name (\<lambda>x. '''') (Str ''Cher'') = (''Cher'', '''')" by blast
  ultimately show ?thesis using c by blast
qed

text \<open>
  C10, as stated, fails: the company field is copied unchanged, so a row that passes the
  export filter and whose company cell is "N/A" yields a record that carries "N/A".
\<close>

theorem format_contact_counterexample:
  "has_contact_info na_company_lead \<and>
   (\<exists>c. format_contact (\<lambda>x. '''') ''2025-01-01'' na_company_lead = Inr c \<and>
        map_of c ''company'' = Some (Str ''N/A''))"
  by (simp add: has_contact_info_def na_company_lead_def row_get_def
      format_contact_def parse_name_def isna_def strip_def is_space_def split_first_blank_def
      get_priority_level_def unless_na_def)



text \<open>
  C8. For every scored table, \<^verbatim>\<open>create_sales_tasks\<close> returns at most 10 tasks, made
  from the top-10 selection only: the selection holds \<open>min 10 n\<close> rows of the table in
  descending score order, no row left out has a higher score than a selected one, and
  rows of equal score are taken and ordered as in the table. The tasks are, in the
  order of the selection, exactly the tasks of its rows with a score of at least 0.6,
  each written from the company, the contact and the score of its own row: a
  high-priority call due "1 day" for a score of at least 0.8 and a medium-priority
  research task due "3 days" for a score in [0.6, 0.8); a row below 0.6 yields no task
  even when it is selected.
\<close>

theorem create_sales_tasks_top10:
  "''lead_score'' \<in> set (columns df) \<and> list_all scored (rows df) \<longrightarrow>
   (\<exists>top_leads tasks.
      nlargest 10 ''lead_score'' df = Inr top_leads \<and> create_sales_tasks float_repr df = Inr tasks \<and>
      length top_leads = min 10 (length (rows df)) \<and> mset top_leads \<subseteq># mset (rows df) \<and>
      sorted_wrt (\<lambda>a b. lead_score_of b \<le> lead_score_of a) top_leads \<and>
      (\<forall>r \<in># mset (rows df) - mset top_leads. \<forall>t \<in> set top_leads. lead_score_of r \<le> lead_score_of t) \<and>
      (\<forall>k. prefix (filter (\<lambda>r. lead_score_of r = k) top_leads)
                   (filter (\<lambda>r. lead_score_of r = k) (rows df))) \<and>
      length tasks \<le> 10 \<and>
      tasks = map (task_for float_repr) (filter (\<lambda>r. 0.6 \<le> lead_score_of r) top_leads) \<and>
      map task_kind tasks = map expected_kind (filter (\<lambda>r. 0.6 \<le> lead_score_of r) top_leads))"
proof
  assume a: "''lead_score'' \<in> set (columns df) \<and> list_all scored (rows df)"
  define top_leads where "top_leads = take 10 (sort_key (\<lambda>r. - lead_score_of r) (rows df))"
  have n: "nlargest 10 ''lead_score'' df = Inr top_leads"
    unfolding top_leads_def using a by (simp add: nlargest_scored)
  have "set top_leads \<subseteq> set (rows df)"
    unfolding top_leads_def by (metis set_take_subset set_sort)
  with a have "list_all scored top_leads" by (auto simp: list_all_iff)
  from collect_tasks_scored[OF this, of float_repr] obtain tasks where
    t: "collect_tasks float_repr top_leads = Inr tasks"
       "tasks = map (task_for float_repr) (filter (\<lambda>r. 0.6 \<le> lead_score_of r) top_leads)"
    by (elim exE conjE)
  have c: "create_sales_tasks float_repr df = Inr tasks"
    by (simp add: create_sales_tasks_def n t(1))
  have "length tasks = length (filter (\<lambda>r. 0.6 \<le> lead_score_of r) top_leads)"
    unfolding t(2) by (rule length_map)
  also have "\<dots> \<le> length top_leads" by simp
  also have "\<dots> \<le> 10" by (simp add: top_leads_def)
  finally have l: "length tasks \<le> 10" .
  have k: "map task_kind tasks = map expected_kind (filter (\<lambda>r. 0.6 \<le> lead_score_of r) top_leads)"
    unfolding t(2) by (simp add: task_kind_task_for)
  note p = top_rows_properties[where xs="rows df" and n=10, folded top_leads_def]
  from n c l t(2) k p show "\<exists>top_leads tasks.
      nlargest 10 ''lead_score'' df = Inr top_leads \<and> create_sales_tasks float_repr df = Inr tasks \<and>
      length top_leads = min 10 (length (rows df)) \<and> mset top_leads \<subseteq># mset (rows df) \<and>
      sorted_wrt (\<lambda>a b. lead_score_of b \<le> lead_score_of a) top_leads \<and>
      (\<forall>r \<in># mset (rows df) - mset top_leads. \<forall>t \<in> set top_leads. lead_score_of r \<le> lead_score_of t) \<and>
      (\<forall>k. prefix (filter (\<lambda>r. lead_score_of r = k) top_leads)
                   (filter (\<lambda>r. lead_score_of r = k) (rows df))) \<and>
      length tasks \<le> 10 \<and>
      tasks = map (task_for float_repr) (filter (\<lambda>r. 0.6 \<le> lead_score_of r) top_leads) \<and>
      map task_kind tasks = map expected_kind (filter (\<lambda>r. 0.6 \<le> lead_score_of r) top_leads)"
    by blast
qed

theorem create_sales_tasks_top10_witness:
  "''lead_score'' \<in> set (columns demo_scored) \<and> list_all scored (rows demo_scored) \<and>
   (\<exists>tasks. create_sales_tasks (\<lambda>x. '''') demo_scored = Inr tasks \<and>
      map (\<lambda>t. (map_of t ''title'', map_of t ''description'', map_of t ''priority'')) tasks =
        [(Some ''URGENT: Call A'', Some ''Hot lead (95% score). Contact: Head of A'', Some ''High''),
         (Some ''URGENT: Call G'', Some ''Hot lead (90% score). Contact: Head of G'', Some ''High''),
         (Some ''URGENT: Call C'', Some ''Hot lead (85% score). Contact: Head of C'', Some ''High''),
         (Some ''Research and reach out to D'',
          Some ''Warm lead (70% score). Research before calling.'', Some ''Medium''),
         (Some ''Research and reach out to E'',
          Some ''Warm lead (70% score). Research before calling.'', Some ''Medium''),
         (Some ''Research and reach out to J'',
          Some ''Warm lead (65% score). Research before calling.'', Some ''Medium'')])"
proof -
  have h: "''lead_score'' \<in> set (columns demo_scored) \<and> list_all scored (rows demo_scored)"
    using demo_scored_ok by (intro conjI)
  from create_sales_tasks_top10[of demo_scored "\<lambda>x. ''''", THEN mp, OF h]
  obtain top_leads tasks where
    *: "nlargest 10 ''lead_score'' demo_scored = Inr top_leads"
       "create_sales_tasks (\<lambda>x. '''') demo_scored = Inr tasks"
       "tasks = map (task_for (\<lambda>x. '''')) (filter (\<lambda>r. 0.6 \<le> lead_score_of r) top_leads)"
    by (elim exE conjE)
  from *(1) have "Inr top_leads = (Inr
     [scored_lead ''A'' 0.95, scored_lead ''G'' 0.9, scored_lead ''C'' 0.85,
          scored_lead ''D'' 0.7, scored_lead ''E'' 0.7, scored_lead ''J'' 0.65,
          scored_lead ''B'' 0.55, scored_lead ''L'' 0.5, scored_lead ''K'' 0.4,
          scored_lead ''F'' 0.3] :: error + row list)"
    by (simp only: demo_scored_top)
  then have t: "top_leads =
     [scored_lead ''A'' 0.95, scored_lead ''G'' 0.9, scored_lead ''C'' 0.85,
          scored_lead ''D'' 0.7, scored_lead ''E'' 0.7, scored_lead ''J'' 0.65,
          scored_lead ''B'' 0.55, scored_lead ''L'' 0.5, scored_lead ''K'' 0.4,
          scored_lead ''F'' 0.3]"
    by (simp only: sum.inject)
  have m: "map (\<lambda>t. (map_of t ''title'', map_of t ''description'', map_of t ''priority'')) tasks =
        [(Some ''URGENT: Call A'', Some ''Hot lead (95% score). Contact: Head of A'', Some ''High''),
         (Some ''URGENT: Call G'', Some ''Hot lead (90% score). Contact: Head of G'', Some ''High''),
         (Some ''URGENT: Call C'', Some ''Hot lead (85% score). Contact: Head of C'', Some ''High''),
         (Some ''Research and reach out to D'',
          Some ''Warm lead (70% score). Research before calling.'', Some ''Medium''),
         (Some ''Research and reach out to E'',
          Some ''Warm lead (70% score). Research before calling.'', Some ''Medium''),
         (Some ''Research and reach out to J'',
          Some ''Warm lead (65% score). Research before calling.'', Some ''Medium'')]"
    unfolding *(3) t
    by (simp add: scored_lead_simps task_for_def call_task_def research_task_def
        scored_lead_cells demo_percents demo_percent_texts)
  from *(2) m have "\<exists>tasks. create_sales_tasks (\<lambda>x. '''') demo_scored = Inr tasks \<and>
      map (\<lambda>t. (map_of t ''title'', map_of t ''description'', map_of t ''priority'')) tasks =
        [(Some ''URGENT: Call A'', Some ''Hot lead (95% score). Contact: Head of A'', Some ''High''),
         (Some ''URGENT: Call G'', Some ''Hot lead (90% score). Contact: Head of G'', Some ''High''),
         (Some ''URGENT: Call C'', Some ''Hot lead (85% score). Contact: Head of C'', Some ''High''),
         (Some ''Research and reach out to D'',
          Some ''Warm lead (70% score). Research before calling.'', Some ''Medium''),
         (Some ''Research and reach out to E'',
          Some ''Warm lead (70% score). Research before calling.'', Some ''Medium''),
         (Some ''Research and reach out to J'',
          Some ''Warm lead (65% score). Research before calling.'', Some ''Medium'')]"
    by (intro exI conjI)
  with h show ?thesis by (intro conjI) (erule conjunct1, erule conjunct2, assumption)
qed

text \<open>
  C9. \<^verbatim>\<open>process_leads\<close> leaves the input table, and every other table of the store,
  as it was, whether it returns or raises; when it returns, the result is a newly
  allocated table that has the input's rows in order, each with its cells unchanged
  and extended by a number in each of the five feature columns.
\<close>

theorem process_leads_frame:
  "df < length st \<longrightarrow>
     (\<forall>a < length st. snd (process_leads st df) ! a = st ! a) \<and>
     (\<forall>p. fst (process_leads st df) = Inr p \<longrightarrow>
        p = length st \<and> p < length (snd (process_leads st df)) \<and>
        extends_with feature_columns (st ! df) (snd (process_leads st df) ! p))"
proof
  assume d: "df < length st"
  define n where "n = length st"
  define s0 where "s0 = st @ [st ! df]"
  have l0: "length s0 = Suc n" and f0: "\<forall>a < n. s0 ! a = st ! a"
    and e0: "extends_with [] (st ! df) (s0 ! n)"
    by (simp_all add: s0_def n_def nth_append extends_with_refl)
  obtain r1 s1 where a1: "assign_column s0 n ''email_quality''
      (apply_column (s0 ! df) ''Contact_Email'' score_email) = (r1, s1)" by fastforce
  obtain r2 s2 where a2: "assign_column s1 n ''phone_quality''
      (apply_column (s1 ! df) ''Contact_Phone'' score_phone) = (r2, s2)" by fastforce
  obtain r3 s3 where a3: "assign_column s2 n ''title_value''
      (apply_column (s2 ! df) ''Contact_Title'' score_title) = (r3, s3)" by fastforce
  obtain r4 s4 where a4: "assign_column s3 n ''data_completeness''
      (calculate_completeness (s3 ! df)) = (r4, s4)" by fastforce
  obtain r5 s5 where a5: "assign_column s4 n ''industry_fit''
      (apply_column (s4 ! df) ''Industry'' score_industry) = (r5, s5)" by fastforce
  note f1 = assign_frame[OF l0 f0 a1]
  note f2 = assign_frame[OF f1[THEN conjunct1] f1[THEN conjunct2] a2]
  note f3 = assign_frame[OF f2[THEN conjunct1] f2[THEN conjunct2] a3]
  note f4 = assign_frame[OF f3[THEN conjunct1] f3[THEN conjunct2] a4]
  note f5 = assign_frame[OF f4[THEN conjunct1] f4[THEN conjunct2] a5]
  have pl: "process_leads st df =
     (case r1 of Inl e \<Rightarrow> (Inl e, s1) | Inr u1 \<Rightarrow>
     (case r2 of Inl e \<Rightarrow> (Inl e, s2) | Inr u2 \<Rightarrow>
     (case r3 of Inl e \<Rightarrow> (Inl e, s3) | Inr u3 \<Rightarrow>
     (case r4 of Inl e \<Rightarrow> (Inl e, s4) | Inr u4 \<Rightarrow>
     (case r5 of Inl e \<Rightarrow> (Inl e, s5) | Inr u5 \<Rightarrow> (Inr n, s5))))))"
    by (cases r1; cases r2; cases r3; cases r4; cases r5)
       (simp_all add: process_leads_def Let_def s0_def[symmetric] n_def[symmetric] a1 a2 a3 a4 a5)
  have frame: "\<forall>a < length st. snd (process_leads st df) ! a = st ! a"
    unfolding pl using f1 f2 f3 f4 f5 by (simp add: n_def split: sum.splits)
  have ext: "\<forall>p. fst (process_leads st df) = Inr p \<longrightarrow>
        p = length st \<and> p < length (snd (process_leads st df)) \<and>
        extends_with feature_columns (st ! df) (snd (process_leads st df) ! p)"
  proof (intro allI impI)
    fix p assume p: "fst (process_leads st df) = Inr p"
    then obtain u1 u2 u3 u4 u5 where
      r: "r1 = Inr u1" "r2 = Inr u2" "r3 = Inr u3" "r4 = Inr u4" "r5 = Inr u5"
      unfolding pl by (auto split: sum.splits)
    have res: "process_leads st df = (Inr n, s5)" unfolding pl r by simp
    note e1 = assign_ext[OF e0 l0 apply_column_Inr a1[unfolded r]]
    note e2 = assign_ext[OF e1 f1[THEN conjunct1] apply_column_Inr a2[unfolded r]]
    note e3 = assign_ext[OF e2 f2[THEN conjunct1] apply_column_Inr a3[unfolded r]]
    note e4 = assign_ext[OF e3 f3[THEN conjunct1] calculate_completeness_Inr a4[unfolded r]]
    note e5 = assign_ext[OF e4 f4[THEN conjunct1] apply_column_Inr a5[unfolded r]]
    from e5 have "extends_with feature_columns (st ! df) (s5 ! n)"
      by (simp add: feature_columns_def)
    with p f5 show "p = length st \<and> p < length (snd (process_leads st df)) \<and>
        extends_with feature_columns (st ! df) (snd (process_leads st df) ! p)"
      unfolding res by (simp add: n_def)
  qed
  from frame ext show "(\<forall>a < length st. snd (process_leads st df) ! a = st ! a) \<and>
     (\<forall>p. fst (process_leads st df) = Inr p \<longrightarrow>
        p = length st \<and> p < length (snd (process_leads st df)) \<and>
        extends_with feature_columns (st ! df) (snd (process_leads st df) ! p))"
    by (rule conjI)
qed

theorem process_leads_frame_witness:
  "0 < length [raw_leads] \<and>
   fst (process_leads [raw_leads] 0) = Inr 1 \<and>
   snd (process_leads [raw_leads] 0) ! 0 = raw_leads \<and>
   extends_with feature_columns raw_leads (snd (process_leads [raw_leads] 0) ! 1)"
proof -
  have h: "0 < length [raw_leads]" by simp
  have r: "fst (process_leads [raw_leads] 0) = Inr 1" by code_simp
  from process_leads_frame[of 0 "[raw_leads]", THEN mp, OF h]
  have f: "\<forall>a < length [raw_leads]. snd (process_leads [raw_leads] 0) ! a = [raw_leads] ! a"
    and e: "\<forall>p. fst (process_leads [raw_leads] 0) = Inr p \<longrightarrow>
        p = length [raw_leads] \<and> p < length (snd (process_leads [raw_leads] 0)) \<and>
        extends_with feature_columns ([raw_leads] ! 0) (snd (process_leads [raw_leads] 0) ! p)"
    by (rule conjunct1, rule conjunct2)
  from f have f0: "snd (process_leads [raw_leads] 0) ! 0 = raw_leads" by simp
  from e r have "extends_with feature_columns ([raw_leads] ! 0) (snd (process_leads [raw_leads] 0) ! 1)"
    by blast
  then have e1: "extends_with feature_columns raw_leads (snd (process_leads [raw_leads] 0) ! 1)"
    by simp
  from h r f0 e1 show ?thesis by (intro conjI)
qed

text \<open>
  C2. \<^verbatim>\<open>train\<close> raises, returning no result and leaving the scorer as it was, whenever
  the feature table lacks one of the five feature columns (the column selection raises
  \<^verbatim>\<open>KeyError\<close>) or has the columns but no rows (the split raises \<^verbatim>\<open>ValueError\<close>, given
  that the library's split refuses an empty sample).
\<close>

theorem train_rejects_unusable_table:
  "(\<not> set feature_columns \<subseteq> set (columns df) \<longrightarrow>
      train lib self df draws = (Inl KeyError, self)) \<and>
   (set feature_columns \<subseteq> set (columns df) \<and> rows df = [] \<and> rejects_empty_split lib \<longrightarrow>
      (\<exists>msg. train lib self df draws = (Inl (ValueError msg), self)))"
proof (intro conjI impI)
  assume "\<not> set feature_columns \<subseteq> set (columns df)"
  then show "train lib self df draws = (Inl KeyError, self)"
    by (simp add: train_def select_values_missing)
next
  assume a: "set feature_columns \<subseteq> set (columns df) \<and> rows df = [] \<and> rejects_empty_split lib"
  then obtain msg where m: "train_test_split lib [] [] = Inl (ValueError msg)"
    unfolding rejects_empty_split_def by blast
  from a have "select_values df feature_columns = Inr []" "create_training_labels df draws = Inr []"
    by (simp_all add: select_values_empty create_training_labels_def)
  then have "train lib self df draws = (Inl (ValueError msg), self)"
    by (simp add: train_def m)
  then show "\<exists>msg. train lib self df draws = (Inl (ValueError msg), self)" by blast
qed

theorem train_rejects_unusable_table_witness:
  "\<not> set feature_columns \<subseteq> set (columns raw_leads) \<and>
   train stub_sklearn new_scorer raw_leads (sconst 0) = (Inl KeyError, new_scorer) \<and>
   set feature_columns \<subseteq> set (columns empty_features) \<and> rows empty_features = [] \<and>
   rejects_empty_split stub_sklearn \<and>
   (\<exists>msg. train stub_sklearn new_scorer empty_features (sconst 0) = (Inl (ValueError msg), new_scorer))"
proof -
  have h1: "\<not> set feature_columns \<subseteq> set (columns raw_leads)"
    by (simp add: feature_columns_def raw_leads_def)
  have h2: "set feature_columns \<subseteq> set (columns empty_features) \<and> rows empty_features = [] \<and>
            rejects_empty_split stub_sklearn"
    by (simp add: empty_features_def stub_contracts)
  from train_rejects_unusable_table[of raw_leads stub_sklearn new_scorer "sconst 0"] h1
  have c1: "train stub_sklearn new_scorer raw_leads (sconst 0) = (Inl KeyError, new_scorer)"
    by (elim conjE) (erule mp)
  from train_rejects_unusable_table[of empty_features stub_sklearn new_scorer "sconst 0"] h2
  have c2: "\<exists>msg. train stub_sklearn new_scorer empty_features (sconst 0) = (Inl (ValueError msg), new_scorer)"
    by (elim conjE) (erule mp, intro conjI)
  from h1 c1 h2 c2 show ?thesis by (elim conjE) (intro conjI)
qed

text \<open>
  C1. \<^verbatim>\<open>predict_scores\<close> on a scorer that is not trained raises the \<^verbatim>\<open>ValueError\<close>
  "Model must be trained first!", and a \<^verbatim>\<open>train\<close> that raises leaves the scorer
  untrained if it was. After a successful \<^verbatim>\<open>train\<close>, however, \<^verbatim>\<open>predict_scores\<close> does
  not always return scores: when all synthesized labels are equal the classifier has
  seen one class, \<^verbatim>\<open>predict_proba\<close> has one column, and the selection of column 1 raises
  \<^verbatim>\<open>IndexError\<close> for every table.
\<close>

theorem predict_scores_needs_two_classes:
  "(\<not> is_trained self \<longrightarrow>
      predict_scores lib self df = Inl (ValueError ''Model must be trained first!'')) \<and>
   ((\<exists>e. fst (train lib self df0 draws) = Inl e) \<longrightarrow>
      is_trained (snd (train lib self df0 draws)) = is_trained self) \<and>
   (proba_columns_are_classes lib \<and> split_keeps_labels lib \<and>
    create_training_labels df0 draws = Inr y \<and> card (set y) \<le> 1 \<and>
    train lib self df0 draws = (Inr result, self') \<longrightarrow>
      is_trained self' \<and> (\<exists>e. predict_scores lib self' df = Inl e))"
proof -
  have 1: "\<not> is_trained self \<longrightarrow>
      predict_scores lib self df = Inl (ValueError ''Model must be trained first!'')"
    by (simp add: predict_scores_def)
  have 2: "(\<exists>e. fst (train lib self df0 draws) = Inl e) \<longrightarrow>
      is_trained (snd (train lib self df0 draws)) = is_trained self"
    using train_failure_keeps_flag by blast
  have 3: "proba_columns_are_classes lib \<and> split_keeps_labels lib \<and>
    create_training_labels df0 draws = Inr y \<and> card (set y) \<le> 1 \<and>
    train lib self df0 draws = (Inr result, self') \<longrightarrow>
      is_trained self' \<and> (\<exists>e. predict_scores lib self' df = Inl e)"
  proof
    assume a: "proba_columns_are_classes lib \<and> split_keeps_labels lib \<and>
      create_training_labels df0 draws = Inr y \<and> card (set y) \<le> 1 \<and>
      train lib self df0 draws = (Inr result, self')"
    from train_success[of lib self df0 draws result self'] a
    obtain X X_train X_test y_train y_test sc X_train_scaled m where
      t: "train_test_split lib X y = Inr (X_train, X_test, y_train, y_test)"
         "forest_fit lib X_train_scaled y_train = Inr m"
         "self' = self\<lparr>scaler := Some sc, model := Some m, is_trained := True\<rparr>"
      by auto
    from a t(1) have "set y_train \<subseteq> set y" unfolding split_keeps_labels_def by blast
    then have "card (set y_train) \<le> card (set y)" by (simp add: card_mono)
    with a have c: "card (set y_train) \<le> 1" by simp
    have one: "\<And>X k P. forest_predict_proba lib m X = Inr (k, P) \<Longrightarrow> k \<le> 1"
    proof -
      fix X' k P assume "forest_predict_proba lib m X' = Inr (k, P)"
      with a t(2) have "k = card (set y_train)" unfolding proba_columns_are_classes_def by blast
      with c show "k \<le> 1" by simp
    qed
    have s: "scaler self' = Some sc" "model self' = Some m" "is_trained self'"
      by (simp_all add: t(3))
    have "\<exists>e. predict_scores lib self' df = Inl e"
      by (rule predict_scores_one_column[OF s]) (rule one)
    with s(3) show "is_trained self' \<and> (\<exists>e. predict_scores lib self' df = Inl e)" by blast
  qed
  from 1 2 3 show ?thesis by (intro conjI)
qed

theorem predict_scores_needs_two_classes_witness:
  "\<not> is_trained (new_scorer :: (unit, int list) lead_scorer) \<and>
   predict_scores stub_sklearn new_scorer poor_leads =
     Inl (ValueError ''Model must be trained first!'') \<and>
   proba_columns_are_classes stub_sklearn \<and> split_keeps_labels stub_sklearn \<and>
   create_training_labels poor_leads (sconst 0.01) = Inr [0, 0, 0, 0, 0] \<and>
   (\<exists>result self'. train stub_sklearn new_scorer poor_leads (sconst 0.01) = (Inr result, self') \<and>
      is_trained self' \<and> predict_scores stub_sklearn self' poor_leads = Inl IndexError)"
proof -
  have n: "\<not> is_trained (new_scorer :: (unit, int list) lead_scorer)"
    by (simp add: new_scorer_def)
  have c: "card (set [0, 0, 0, 0, 0 :: int]) \<le> 1" by simp
  note th = predict_scores_needs_two_classes[of new_scorer stub_sklearn poor_leads poor_leads
      "sconst 0.01" "[0, 0, 0, 0, 0]"
      "[(''train_accuracy'', 1), (''test_accuracy'', 1), (''total_samples'', 5), (''positive_leads'', 0)]"
      "\<lparr>scaler = Some (), model = Some [0], is_trained = True\<rparr>"]
  from th have g0: "\<not> is_trained (new_scorer :: (unit, int list) lead_scorer) \<longrightarrow>
      predict_scores stub_sklearn new_scorer poor_leads =
        Inl (ValueError ''Model must be trained first!'')"
    by (rule conjunct1)
  from g0 n have g: "predict_scores stub_sklearn new_scorer poor_leads =
     Inl (ValueError ''Model must be trained first!'')" by (rule mp)
  have hyp: "proba_columns_are_classes stub_sklearn \<and> split_keeps_labels stub_sklearn \<and>
    create_training_labels poor_leads (sconst 0.01) = Inr [0, 0, 0, 0, 0] \<and>
    card (set [0, 0, 0, 0, 0 :: int]) \<le> 1 \<and>
    train stub_sklearn new_scorer poor_leads (sconst 0.01) =
     (Inr [(''train_accuracy'', 1), (''test_accuracy'', 1), (''total_samples'', 5),
           (''positive_leads'', 0)],
      \<lparr>scaler = Some (), model = Some [0], is_trained = True\<rparr>)"
    using stub_contracts(2,3) poor_labels c poor_train by (intro conjI)
  from th have "proba_columns_are_classes stub_sklearn \<and> split_keeps_labels stub_sklearn \<and>
    create_training_labels poor_leads (sconst 0.01) = Inr [0, 0, 0, 0, 0] \<and>
    card (set [0, 0, 0, 0, 0 :: int]) \<le> 1 \<and>
    train stub_sklearn new_scorer poor_leads (sconst 0.01) =
     (Inr [(''train_accuracy'', 1), (''test_accuracy'', 1), (''total_samples'', 5),
           (''positive_leads'', 0)],
      \<lparr>scaler = Some (), model = Some [0], is_trained = True\<rparr>) \<longrightarrow>
     is_trained \<lparr>scaler = Some (), model = Some [0::int], is_trained = True\<rparr> \<and>
      (\<exists>e. predict_scores stub_sklearn \<lparr>scaler = Some (), model = Some [0], is_trained = True\<rparr>
             poor_leads = Inl e)"
    by (rule conjunct2[THEN conjunct2])
  from this hyp
  have p: "is_trained \<lparr>scaler = Some (), model = Some [0::int], is_trained = True\<rparr> \<and>
      (\<exists>e. predict_scores stub_sklearn \<lparr>scaler = Some (), model = Some [0], is_trained = True\<rparr>
             poor_leads = Inl e)"
    by (rule mp)
  from poor_train p poor_leads_index_error
  have "\<exists>result self'. train stub_sklearn new_scorer poor_leads (sconst 0.01) = (Inr result, self') \<and>
      is_trained self' \<and> predict_scores stub_sklearn self' poor_leads = Inl IndexError"
    by blast
  with n g stub_contracts(2,3) poor_labels show ?thesis by (intro conjI)
qed

end
